theory Spec2Isabelle
  imports Main "HOL-Library.AList"
begin

section \<open>The service worker of the finance dashboard (sw.js)\<close>

text \<open>
  The worker is event driven: each handler reads and writes the origin's cache storage and
  may call the network. A handler is modelled as a function from the worker state before
  the event to its result and the state after every task it started has settled (the
  writes the source does not await are included). The network is a parameter: what
  \<open>fetch\<close> settles with for each URL during the event.
\<close>

subsection \<open>Strings\<close>

definition startsWith :: "string \<Rightarrow> string \<Rightarrow> bool" where
  "startsWith s p = (take (length p) s = p)"

text \<open>\<open>String.prototype.includes\<close>: \<open>t\<close> occurs in \<open>s\<close> as a contiguous substring.\<close>

fun includes_str :: "string \<Rightarrow> string \<Rightarrow> bool" where
  "includes_str [] t = (t = [])"
| "includes_str (c # s) t = (startsWith (c # s) t \<or> includes_str s t)"

text \<open>The scheme of the URL is \<open>http\<close> or \<open>https\<close>.\<close>

definition http_scheme :: "string \<Rightarrow> bool" where
  "http_scheme u = (startsWith u ''http://'' \<or> startsWith u ''https://'')"

text \<open>
  The URLs that requests carry: no URL scheme other than \<open>http\<close> and \<open>https\<close> begins
  with the letters \<open>http\<close>, so a URL that begins with them has one of these two schemes.
\<close>

definition carried_url :: "string \<Rightarrow> bool" where
  "carried_url u = (startsWith u ''http'' \<longrightarrow> http_scheme u)"

text \<open>
  The platform resolves a key that the source writes as a path (\<open>'/index.html'\<close>)
  against the worker's origin; an absolute URL is its own resolution.
\<close>

definition resolve_key :: "string \<Rightarrow> string \<Rightarrow> string" where
  "resolve_key self_origin k = (if startsWith k ''/'' then self_origin @ k else k)"

subsection \<open>Responses, requests, errors\<close>

text \<open>\<open>vary\<close> lists the field values of the response's \<open>Vary\<close> header.\<close>

record response =
  status :: nat
  statusText :: string
  body :: string
  vary :: "string list"

text \<open>\<open>Response.ok\<close>: the status is in the range 200..299.\<close>

definition ok :: "response \<Rightarrow> bool" where
  "ok r = (200 \<le> status r \<and> status r \<le> 299)"

text \<open>
  A request as the fetch handler reads it: \<open>http_method\<close> is \<open>request.method\<close>;
  \<open>url\<close> is the request's URL as the cache storage compares it; \<open>origin\<close> and
  \<open>hostname\<close> are the fields of \<open>new URL(request.url)\<close>, computed by the platform.
\<close>

record request =
  http_method :: string
  url :: string
  origin :: string
  hostname :: string
  destination :: string

text \<open>
  \<open>FetchFailed\<close>: the rejection of \<open>fetch\<close> (network unreachable, request aborted).
  \<open>AddAllFailed\<close>: the rejection of \<open>cache.addAll\<close>.
\<close>

datatype error = FetchFailed | AddAllFailed

type_synonym network = "string \<Rightarrow> error + response"

subsection \<open>Cache storage\<close>

text \<open>
  A partition lists its entries, request key and response, in the order they were
  stored; the storage lists the partitions by name in creation order, the order
  \<open>caches.match\<close> searches and \<open>caches.keys\<close> returns. Reading the storage succeeds;
  only the message handler, whose source catches the failure, is given a storage that
  may reject.
\<close>

type_synonym partition = "(string \<times> response) list"
type_synonym cache_storage = "(string \<times> partition) list"

record sw_state =
  caches :: cache_storage
  fetched :: "string list"
  skipped_waiting :: bool
  claimed :: bool

definition CACHE_NAME :: string where
  "CACHE_NAME = ''finance-dashboard-v3.0.0''"

definition STATIC_CACHE_NAME :: string where
  "STATIC_CACHE_NAME = ''finance-static-v3.0.0''"

definition DYNAMIC_CACHE_NAME :: string where
  "DYNAMIC_CACHE_NAME = ''finance-dynamic-v3.0.0''"

definition STATIC_FILES :: "string list" where
  "STATIC_FILES =
    [''/'',
     ''/index.html'',
     ''/manifest.json'',
     ''https://cdnjs.cloudflare.com/ajax/libs/pdf.js/3.11.174/pdf.min.js'',
     ''https://cdnjs.cloudflare.com/ajax/libs/Chart.js/4.4.0/chart.umd.js'',
     ''https://cdnjs.cloudflare.com/ajax/libs/PapaParse/5.4.1/papaparse.min.js'',
     ''https://cdnjs.cloudflare.com/ajax/libs/d3/7.8.5/d3.min.js'',
     ''https://cdnjs.cloudflare.com/ajax/libs/fuse.js/6.6.2/fuse.min.js'',
     ''https://cdn.jsdelivr.net/npm/@tensorflow/tfjs@4.10.0/dist/tf.min.js'',
     ''https://unpkg.com/tesseract.js@4.0.2/dist/tesseract.min.js'',
     ''https://cdn.jsdelivr.net/npm/d3-sankey@0.12.3/dist/d3-sankey.min.js'',
     ''https://cdnjs.cloudflare.com/ajax/libs/jspdf/2.5.1/jspdf.umd.min.js'',
     ''https://cdnjs.cloudflare.com/ajax/libs/html2canvas/1.4.1/html2canvas.min.js'']"

text \<open>\<open>caches.keys()\<close>: the names of the extant partitions.\<close>

definition caches_keys :: "cache_storage \<Rightarrow> string list" where
  "caches_keys cs = map fst cs"

text \<open>\<open>caches.open(name)\<close>: creates the partition, empty, when it does not exist.\<close>

definition caches_open :: "string \<Rightarrow> cache_storage \<Rightarrow> cache_storage" where
  "caches_open name cs = (if name \<in> set (caches_keys cs) then cs else cs @ [(name, [])])"

definition partition_of :: "string \<Rightarrow> cache_storage \<Rightarrow> partition" where
  "partition_of name cs = (case map_of cs name of Some p \<Rightarrow> p | None \<Rightarrow> [])"

text \<open>\<open>cache.match(key)\<close> on the partition called \<open>name\<close>.\<close>

definition cache_match :: "string \<Rightarrow> string \<Rightarrow> cache_storage \<Rightarrow> response option" where
  "cache_match name k cs = map_of (partition_of name cs) k"

text \<open>\<open>cache.keys()\<close> on the partition called \<open>name\<close>.\<close>

definition cache_keys :: "string \<Rightarrow> cache_storage \<Rightarrow> string list" where
  "cache_keys name cs = map fst (partition_of name cs)"

text \<open>
  What a write does to a partition: the entries with that key are removed and the new
  entry is added last.
\<close>

definition store_entry :: "string \<Rightarrow> response \<Rightarrow> partition \<Rightarrow> partition" where
  "store_entry k r p = filter (\<lambda>(k', r'). k' \<noteq> k) p @ [(k, r)]"

definition cache_store :: "string \<Rightarrow> string \<Rightarrow> response \<Rightarrow> cache_storage \<Rightarrow> cache_storage" where
  "cache_store name k r cs = AList.update name (store_entry k r (partition_of name cs)) cs"

text \<open>
  The responses \<open>cache.put\<close> and \<open>cache.addAll\<close> accept: they reject a response of
  status 206 and a response whose \<open>Vary\<close> header has the value \<open>*\<close>.
\<close>

definition storable :: "response \<Rightarrow> bool" where
  "storable r = (status r \<noteq> 206 \<and> ''*'' \<notin> set (vary r))"

text \<open>
  \<open>cache.put(key, response)\<close> on the partition called \<open>name\<close>. The source does not
  await the call in the strategies and catches its rejection elsewhere: a rejected
  \<open>put\<close> stores nothing and the handler goes on.
\<close>

definition cache_put :: "string \<Rightarrow> string \<Rightarrow> response \<Rightarrow> cache_storage \<Rightarrow> cache_storage" where
  "cache_put name k r cs = (if storable r then cache_store name k r cs else cs)"

text \<open>
  \<open>cache.put(request, response)\<close>: the call also rejects a request whose method is not
  \<open>GET\<close> or whose scheme is neither \<open>http\<close> nor \<open>https\<close>.
\<close>

definition cache_put_request ::
    "string \<Rightarrow> request \<Rightarrow> response \<Rightarrow> cache_storage \<Rightarrow> cache_storage" where
  "cache_put_request name req r cs =
     (if http_method req = ''GET'' \<and> http_scheme (url req)
      then cache_put name (url req) r cs else cs)"

text \<open>\<open>caches.match(key)\<close>: the first partition, in creation order, with an entry.\<close>

fun caches_match :: "string \<Rightarrow> cache_storage \<Rightarrow> response option" where
  "caches_match k [] = None"
| "caches_match k ((name, p) # cs) =
     (case map_of p k of Some r \<Rightarrow> Some r | None \<Rightarrow> caches_match k cs)"

text \<open>\<open>caches.delete(name)\<close>.\<close>

definition caches_delete :: "string \<Rightarrow> cache_storage \<Rightarrow> cache_storage" where
  "caches_delete name cs = filter (\<lambda>(n, p). n \<noteq> name) cs"

subsection \<open>The fetch strategies\<close>

definition fetch :: "network \<Rightarrow> string \<Rightarrow> sw_state \<Rightarrow> (error + response) \<times> sw_state" where
  "fetch net u s = (net u, s\<lparr>fetched := fetched s @ [u]\<rparr>)"

text \<open>The synthesized response of the offline branches.\<close>

definition offline_response :: response where
  "offline_response =
     \<lparr>status = 503, statusText = ''Service Unavailable'',
      body = ''Offline - Content not available'', vary = []\<rparr>"

text \<open>
  A strategy settles with \<open>Inl e\<close> (the promise rejects), \<open>Inr (Some r)\<close> (it resolves
  with the response \<open>r\<close>) or \<open>Inr None\<close> (it resolves with \<open>undefined\<close>).
\<close>

type_synonym settled = "error + response option"

definition cacheFirstStrategy ::
    "string \<Rightarrow> network \<Rightarrow> request \<Rightarrow> sw_state \<Rightarrow> settled \<times> sw_state" where
  "cacheFirstStrategy self_origin net req s =
     (case caches_match (url req) (caches s) of
        Some cachedResponse \<Rightarrow> (Inr (Some cachedResponse), s)
      | None \<Rightarrow>
          (case fetch net (url req) s of
             (Inr networkResponse, s1) \<Rightarrow>
               (if ok networkResponse
                then (Inr (Some networkResponse),
                      s1\<lparr>caches := cache_put_request STATIC_CACHE_NAME req networkResponse
                                     (caches_open STATIC_CACHE_NAME (caches s1))\<rparr>)
                else (Inr (Some networkResponse), s1))
           | (Inl e, s1) \<Rightarrow>
               (if destination req = ''document''
                then (Inr (caches_match (resolve_key self_origin ''/index.html'') (caches s1)),
                      s1)
                else (Inr (Some offline_response), s1))))"

definition networkFirstStrategy :: "network \<Rightarrow> request \<Rightarrow> sw_state \<Rightarrow> settled \<times> sw_state" where
  "networkFirstStrategy net req s =
     (case fetch net (url req) s of
        (Inr networkResponse, s1) \<Rightarrow>
          (if ok networkResponse
           then (Inr (Some networkResponse),
                 s1\<lparr>caches := cache_put_request DYNAMIC_CACHE_NAME req networkResponse
                                (caches_open DYNAMIC_CACHE_NAME (caches s1))\<rparr>)
           else (Inr (Some networkResponse), s1))
      | (Inl e, s1) \<Rightarrow>
          (case caches_match (url req) (caches s1) of
             Some cachedResponse \<Rightarrow> (Inr (Some cachedResponse), s1)
           | None \<Rightarrow> (Inr (Some offline_response), s1)))"

definition staleWhileRevalidateStrategy ::
    "network \<Rightarrow> request \<Rightarrow> sw_state \<Rightarrow> settled \<times> sw_state" where
  "staleWhileRevalidateStrategy net req s =
     (let s0 = s\<lparr>caches := caches_open DYNAMIC_CACHE_NAME (caches s)\<rparr>;
          cachedResponse = cache_match DYNAMIC_CACHE_NAME (url req) (caches s0);
          (fetchPromise, s2) =
            (case fetch net (url req) s0 of
               (Inr networkResponse, s1) \<Rightarrow>
                 (if ok networkResponse
                  then (Inr (Some networkResponse),
                        s1\<lparr>caches := cache_put_request DYNAMIC_CACHE_NAME req networkResponse
                                       (caches s1)\<rparr>)
                  else (Inr (Some networkResponse), s1))
             | (Inl e, s1) \<Rightarrow> (Inr cachedResponse, s1))
      in case cachedResponse of
           Some r \<Rightarrow> (Inr (Some r), s2)
         | None \<Rightarrow> (fetchPromise, s2))"

definition cdnHosts :: "string list" where
  "cdnHosts =
    [''cdnjs.cloudflare.com'',
     ''cdn.jsdelivr.net'',
     ''unpkg.com'',
     ''fonts.googleapis.com'',
     ''fonts.gstatic.com'']"

text \<open>\<open>isCDNResource(url)\<close>, on \<open>url.hostname\<close>.\<close>

definition isCDNResource :: "string \<Rightarrow> bool" where
  "isCDNResource host_name = list_ex (\<lambda>host. includes_str host_name host) cdnHosts"

subsection \<open>The fetch handler\<close>

text \<open>
  \<open>PassThrough\<close>: the handler returns without calling \<open>respondWith\<close>, and the platform
  handles the request. \<open>self_origin\<close> is \<open>self.location.origin\<close>.
\<close>

datatype handled = PassThrough | RespondWith settled

definition on_fetch :: "string \<Rightarrow> network \<Rightarrow> request \<Rightarrow> sw_state \<Rightarrow> handled \<times> sw_state" where
  "on_fetch self_origin net req s =
     (if http_method req \<noteq> ''GET'' then (PassThrough, s)
      else if \<not> startsWith (url req) ''http'' then (PassThrough, s)
      else if origin req = self_origin
        then (case cacheFirstStrategy self_origin net req s of
                (r, s') \<Rightarrow> (RespondWith r, s'))
      else if isCDNResource (hostname req)
        then (case staleWhileRevalidateStrategy net req s of (r, s') \<Rightarrow> (RespondWith r, s'))
      else (case networkFirstStrategy net req s of (r, s') \<Rightarrow> (RespondWith r, s')))"

subsection \<open>Install and activate\<close>

text \<open>
  \<open>cache.addAll(urls)\<close>: every URL, resolved, is fetched; when every fetch resolves
  with an ok response that the cache accepts, all of them are stored, otherwise the call
  rejects and nothing is stored.
\<close>

fun collect_ok :: "(error + response) list \<Rightarrow> response list option" where
  "collect_ok [] = Some []"
| "collect_ok (Inl e # rs) = None"
| "collect_ok (Inr r # rs) =
     (if ok r \<and> storable r
      then (case collect_ok rs of Some xs \<Rightarrow> Some (r # xs) | None \<Rightarrow> None)
      else None)"

fun put_all :: "string \<Rightarrow> (string \<times> response) list \<Rightarrow> cache_storage \<Rightarrow> cache_storage" where
  "put_all name [] cs = cs"
| "put_all name ((k, r) # krs) cs = put_all name krs (cache_put name k r cs)"

definition cache_addAll ::
    "string \<Rightarrow> network \<Rightarrow> string \<Rightarrow> string list \<Rightarrow> sw_state \<Rightarrow> (error + unit) \<times> sw_state" where
  "cache_addAll self_origin net name urls s =
     (let keys = map (resolve_key self_origin) urls;
          s1 = s\<lparr>fetched := fetched s @ keys\<rparr>
      in case collect_ok (map net keys) of
           Some rs \<Rightarrow> (Inr (), s1\<lparr>caches := put_all name (zip keys rs) (caches s1)\<rparr>)
         | None \<Rightarrow> (Inl AddAllFailed, s1))"

text \<open>
  The second task of the install handler: each remaining URL is fetched and stored in
  the dynamic partition when the response is ok; a failure is caught and logged.
\<close>

fun cache_cdn_resources :: "network \<Rightarrow> string list \<Rightarrow> sw_state \<Rightarrow> sw_state" where
  "cache_cdn_resources net [] s = s"
| "cache_cdn_resources net (u # us) s =
     (case fetch net u s of
        (Inr r, s1) \<Rightarrow>
          (if ok r
           then cache_cdn_resources net us
                  (s1\<lparr>caches := cache_put DYNAMIC_CACHE_NAME u r (caches s1)\<rparr>)
           else cache_cdn_resources net us s1)
      | (Inl e, s1) \<Rightarrow> cache_cdn_resources net us s1)"

text \<open>
  The install handler. The result is what the promise passed to \<open>waitUntil\<close> settles
  with: \<open>Inl e\<close> fails the installation. \<open>skipWaiting\<close> is called in the continuation
  of \<open>Promise.all\<close>, which runs only when both tasks resolve. The two tasks write to
  different partitions, so the model runs one after the other; the second one cannot
  reject (\<open>Promise.allSettled\<close> over promises that each end in a \<open>catch\<close>).
\<close>

definition on_install :: "string \<Rightarrow> network \<Rightarrow> sw_state \<Rightarrow> (error + unit) \<times> sw_state" where
  "on_install self_origin net s =
     (let s0 = s\<lparr>caches := caches_open STATIC_CACHE_NAME (caches s)\<rparr>;
          (static_task, s1) =
            cache_addAll self_origin net STATIC_CACHE_NAME (take 3 STATIC_FILES) s0;
          s2 = s1\<lparr>caches := caches_open DYNAMIC_CACHE_NAME (caches s1)\<rparr>;
          s3 = cache_cdn_resources net (drop 3 STATIC_FILES) s2
      in case static_task of
           Inl e \<Rightarrow> (Inl e, s3)
         | Inr u \<Rightarrow> (Inr (), s3\<lparr>skipped_waiting := True\<rparr>))"

text \<open>The names the activate handler deletes.\<close>

definition is_old_cache :: "string \<Rightarrow> bool" where
  "is_old_cache cacheName =
     (startsWith cacheName ''finance-'' \<and>
      cacheName \<noteq> STATIC_CACHE_NAME \<and>
      cacheName \<noteq> DYNAMIC_CACHE_NAME)"

definition on_activate :: "sw_state \<Rightarrow> sw_state" where
  "on_activate s =
     s\<lparr>caches := foldl (\<lambda>cs cacheName. caches_delete cacheName cs) (caches s)
                    (filter is_old_cache (caches_keys (caches s))),
       claimed := True\<rparr>"

subsection \<open>Background synchronization\<close>

record transaction =
  txn_id :: string
  txn_json :: string

datatype status_data =
    Status (status_caches: nat) (status_size: nat) (status_lastUpdated: string)
  | StatusError string

text \<open>The messages the worker posts: \<open>{type, data}\<close>.\<close>

datatype posted = SYNC_COMPLETE nat | CACHE_STATUS status_data

text \<open>
  The two placeholders of the source: the retrieval always resolves with the empty list,
  the processing of a record only logs.
\<close>

definition getPendingTransactions :: "error + transaction list" where
  "getPendingTransactions = Inr []"

definition processTransaction :: "transaction \<Rightarrow> error + unit" where
  "processTransaction t = Inr ()"

text \<open>The \<open>for ... of\<close> loop: records are processed in order, a rejection leaves the loop.\<close>

fun process_each :: "('t \<Rightarrow> error + unit) \<Rightarrow> 't list \<Rightarrow> error + unit" where
  "process_each process [] = Inr ()"
| "process_each process (t # ts) =
     (case process t of Inl e \<Rightarrow> Inl e | Inr u \<Rightarrow> process_each process ts)"

text \<open>
  The body of \<open>syncTransactions\<close> over the two collaborators it calls; \<open>clients\<close> is what
  \<open>self.clients.matchAll()\<close> resolves with. The result lists the messages posted, each
  with the client it goes to.
\<close>

definition syncTransactions_with ::
    "error + 't list \<Rightarrow> ('t \<Rightarrow> error + unit) \<Rightarrow> 'c list \<Rightarrow> ('c \<times> posted) list" where
  "syncTransactions_with pending process clients =
     (case pending of
        Inl e \<Rightarrow> []
      | Inr pendingTransactions \<Rightarrow>
          (if length pendingTransactions > 0
           then (case process_each process pendingTransactions of
                   Inl e \<Rightarrow> []
                 | Inr u \<Rightarrow>
                     map (\<lambda>client. (client, SYNC_COMPLETE (length pendingTransactions)))
                       clients)
           else []))"

definition syncTransactions :: "'c list \<Rightarrow> ('c \<times> posted) list" where
  "syncTransactions clients =
     syncTransactions_with getPendingTransactions processTransaction clients"

definition on_sync :: "string \<Rightarrow> 'c list \<Rightarrow> ('c \<times> posted) list" where
  "on_sync tag clients =
     (if tag = ''background-sync-transactions'' then syncTransactions clients else [])"

subsection \<open>Messages from the foreground\<close>

text \<open>
  During a message event the platform's cache storage either works or rejects every call
  with an error; \<open>fault\<close> carries the message of that error. \<open>now\<close> is
  \<open>new Date().toISOString()\<close>.
\<close>

fun count_entries :: "string list \<Rightarrow> cache_storage \<Rightarrow> nat \<Rightarrow> nat" where
  "count_entries [] cs acc = acc"
| "count_entries (cacheName # cacheNames) cs acc =
     count_entries cacheNames (caches_open cacheName cs)
       (acc + length (cache_keys cacheName (caches_open cacheName cs)))"

definition getCacheStatus :: "string option \<Rightarrow> string \<Rightarrow> cache_storage \<Rightarrow> status_data" where
  "getCacheStatus fault now cs =
     (case fault of
        Some message \<Rightarrow> StatusError message
      | None \<Rightarrow>
          (let cacheNames = caches_keys cs
           in Status (length cacheNames) (count_entries cacheNames cs 0) now))"

text \<open>
  \<open>cacheTransaction\<close>: the key is the string the source builds, which stands for its
  resolution against the worker's location; the response is \<open>new Response(json)\<close>.
\<close>

definition cacheTransaction :: "string option \<Rightarrow> transaction \<Rightarrow> sw_state \<Rightarrow> sw_state" where
  "cacheTransaction fault t s =
     (case fault of
        Some message \<Rightarrow> s
      | None \<Rightarrow>
          s\<lparr>caches := cache_put DYNAMIC_CACHE_NAME (''transaction-'' @ txn_id t)
                         \<lparr>status = 200, statusText = [], body = txn_json t, vary = []\<rparr>
                         (caches_open DYNAMIC_CACHE_NAME (caches s))\<rparr>)"

text \<open>
  The message event: its type, its data (a transaction, for \<open>CACHE_TRANSACTION\<close>) and
  the number of reply ports the sender attached. The result lists what is posted, each
  message with the index of the port it goes to.
\<close>

record message_event =
  msg_type :: string
  msg_data :: transaction
  msg_ports :: nat

definition on_message ::
    "string option \<Rightarrow> string \<Rightarrow> message_event \<Rightarrow> sw_state \<Rightarrow> (nat \<times> posted) list \<times> sw_state" where
  "on_message fault now ev s =
     (if msg_type ev = ''SKIP_WAITING'' then ([], s\<lparr>skipped_waiting := True\<rparr>)
      else if msg_type ev = ''CACHE_TRANSACTION''
        then ([], cacheTransaction fault (msg_data ev) s)
      else if msg_type ev = ''GET_CACHE_STATUS''
        then (if 0 < msg_ports ev
              then ([(0, CACHE_STATUS (getCacheStatus fault now (caches s)))], s)
              else ([], s))
      else ([], s))"

subsection \<open>Concrete requests, responses and networks\<close>

definition ex_origin :: string where
  "ex_origin = ''https://finance.example''"

definition ex_page_request :: request where
  "ex_page_request =
     \<lparr>http_method = ''GET'', url = ''https://finance.example/app.js'',
      origin = ''https://finance.example'', hostname = ''finance.example'',
      destination = ''script''\<rparr>"

definition ex_cdn_request :: request where
  "ex_cdn_request =
     \<lparr>http_method = ''GET'', url = ''https://unpkg.com/lib.js'',
      origin = ''https://unpkg.com'', hostname = ''unpkg.com'',
      destination = ''script''\<rparr>"

definition ex_api_request :: request where
  "ex_api_request =
     \<lparr>http_method = ''GET'', url = ''https://api.example.org/rates'',
      origin = ''https://api.example.org'', hostname = ''api.example.org'',
      destination = []\<rparr>"

definition ex_post_request :: request where
  "ex_post_request =
     \<lparr>http_method = ''POST'', url = ''https://finance.example/save'',
      origin = ''https://finance.example'', hostname = ''finance.example'',
      destination = []\<rparr>"

definition ex_extension_request :: request where
  "ex_extension_request =
     \<lparr>http_method = ''GET'', url = ''chrome-extension://abc/page.js'',
      origin = ''chrome-extension://abc'', hostname = ''abc'',
      destination = ''script''\<rparr>"

definition ex_stale :: response where
  "ex_stale = \<lparr>status = 200, statusText = ''OK'', body = ''old'', vary = []\<rparr>"

definition ex_fresh :: response where
  "ex_fresh = \<lparr>status = 200, statusText = ''OK'', body = ''new'', vary = []\<rparr>"

definition ex_not_found :: response where
  "ex_not_found = \<lparr>status = 404, statusText = ''Not Found'', body = [], vary = []\<rparr>"

text \<open>The answer to a range request: ok, and not accepted by the cache.\<close>

definition ex_partial :: response where
  "ex_partial =
     \<lparr>status = 206, statusText = ''Partial Content'', body = ''new'', vary = []\<rparr>"

definition net_down :: network where
  "net_down u = Inl FetchFailed"

definition net_fresh :: network where
  "net_fresh u = Inr ex_fresh"

definition net_not_found :: network where
  "net_not_found u = Inr ex_not_found"

definition net_partial :: network where
  "net_partial u = Inr ex_partial"

text \<open>A network on which only the worker's \<open>/index.html\<close> cannot be fetched.\<close>

definition net_no_index :: network where
  "net_no_index u =
     (if u = ''https://finance.example/index.html'' then Inl FetchFailed else Inr ex_fresh)"

text \<open>A network on which the worker's own origin can be fetched and nothing else.\<close>

definition net_local_only :: network where
  "net_local_only u =
     (if startsWith u ''https://finance.example/'' then Inr ex_fresh else Inl FetchFailed)"

definition ex_state :: "cache_storage \<Rightarrow> sw_state" where
  "ex_state cs = \<lparr>caches = cs, fetched = [], skipped_waiting = False, claimed = False\<rparr>"

definition ex_txn :: transaction where
  "ex_txn = \<lparr>txn_id = ''t1'', txn_json = ''{}''\<rparr>"

definition ex_status_event :: message_event where
  "ex_status_event = \<lparr>msg_type = ''GET_CACHE_STATUS'', msg_data = ex_txn, msg_ports = 1\<rparr>"

subsection \<open>The specification's reading of the entry count\<close>

text \<open>The number of entries of all partitions together.\<close>

definition total_entries_spec :: "cache_storage \<Rightarrow> nat" where
  "total_entries_spec cs = sum_list (map (\<lambda>(n, p). length p) cs)"

text \<open>
  Writing entries one after the other, each into the partition it names: every write is
  one the storage performs.
\<close>

fun write_entries :: "(string \<times> string \<times> response) list \<Rightarrow> cache_storage \<Rightarrow> cache_storage" where
  "write_entries [] cs = cs"
| "write_entries ((name, k, r) # ws) cs =
     write_entries ws (cache_store name k r (caches_open name cs))"

section \<open>Facts about the cache storage\<close>

lemma caches_match_None:
  "caches_match k cs = None \<longleftrightarrow> (\<forall>(n, p) \<in> set cs. map_of p k = None)"
  by (induction cs) (auto split: option.splits)

lemma caches_match_first:
  "(\<forall>(m, q) \<in> set pre. map_of q k = None) \<Longrightarrow> map_of p k = Some r \<Longrightarrow>
   caches_match k (pre @ (n, p) # post) = Some r"
  by (induction pre) (auto split: option.splits)

lemma caches_match_Some_member:
  "caches_match k cs = Some r \<Longrightarrow> \<exists>n p. (n, p) \<in> set cs \<and> map_of p k = Some r"
proof (induction cs)
  case Nil
  then show ?case by simp
next
  case (Cons a cs)
  obtain n p where a: "a = (n, p)" by (cases a)
  show ?case
  proof (cases "map_of p k")
    case None
    with Cons a show ?thesis by auto
  next
    case (Some r')
    with Cons.prems a have "r' = r" by simp
    with Some a show ?thesis by auto
  qed
qed

lemma caches_match_Some_decomp:
  "caches_match k cs = Some c \<Longrightarrow>
   \<exists>pre n p post. cs = pre @ (n, p) # post \<and> (\<forall>(m, q) \<in> set pre. map_of q k = None) \<and>
     map_of p k = Some c"
proof (induction cs)
  case Nil
  then show ?case by simp
next
  case (Cons a cs)
  obtain n p where a: "a = (n, p)" by (cases a)
  show ?case
  proof (cases "map_of p k")
    case None
    with Cons.prems a have "caches_match k cs = Some c" by simp
    from Cons.IH [OF this] obtain pre n' p' post where
      d: "cs = pre @ (n', p') # post \<and> (\<forall>(m, q) \<in> set pre. map_of q k = None) \<and>
          map_of p' k = Some c"
      by (elim exE)
    show ?thesis
      using d None a
      by (intro exI [of _ "(n, p) # pre"] exI [of _ n'] exI [of _ p'] exI [of _ post]) simp
  next
    case (Some c')
    with Cons.prems a have "c' = c" by simp
    with Some a show ?thesis
      by (intro exI [of _ "[]"] exI [of _ n] exI [of _ p] exI [of _ cs]) simp
  qed
qed

lemma partition_of_update:
  "partition_of name (AList.update name' p cs) = (if name = name' then p else partition_of name cs)"
  by (simp add: partition_of_def update_conv')

lemma store_entry_Cons:
  "store_entry k r ((k', r') # p)
     = (if k' = k then store_entry k r p else (k', r') # store_entry k r p)"
  by (simp add: store_entry_def)

lemma map_of_store_entry:
  "map_of (store_entry k r p) k' = (if k' = k then Some r else map_of p k')"
  by (induction p) (auto simp add: store_entry_def)

lemma cache_match_store_same:
  "cache_match name k (cache_store name k r cs) = Some r"
  by (simp add: cache_match_def cache_store_def partition_of_update map_of_store_entry)

lemma cache_match_store_other:
  "name' \<noteq> name \<or> k' \<noteq> k \<Longrightarrow>
   cache_match name' k' (cache_store name k r cs) = cache_match name' k' cs"
  by (auto simp add: cache_match_def cache_store_def partition_of_update map_of_store_entry)

lemma cache_match_put_same:
  "storable r \<Longrightarrow> cache_match name k (cache_put name k r cs) = Some r"
  by (simp add: cache_put_def cache_match_store_same)

lemma cache_match_put_other:
  "name' \<noteq> name \<or> k' \<noteq> k \<Longrightarrow>
   cache_match name' k' (cache_put name k r cs) = cache_match name' k' cs"
  by (simp add: cache_put_def cache_match_store_other)

lemma cache_put_rejected:
  "\<not> storable r \<Longrightarrow> cache_put name k r cs = cs"
  by (simp add: cache_put_def)

lemma partition_of_open:
  "partition_of name (caches_open name' cs) = partition_of name cs"
  by (force simp add: partition_of_def caches_open_def caches_keys_def map_of_eq_None_iff
        split: option.splits if_splits dest: map_of_SomeD)

lemma cache_match_open:
  "cache_match name k (caches_open name' cs) = cache_match name k cs"
  by (simp add: cache_match_def partition_of_open)

lemma cache_match_Some_open:
  "cache_match name k cs = Some r \<Longrightarrow> caches_open name cs = cs"
  by (force simp add: cache_match_def partition_of_def caches_open_def caches_keys_def
        split: option.splits dest: map_of_SomeD)

lemma ex_cdn_request_isCDN: "isCDNResource (hostname ex_cdn_request)"
  by (simp add: isCDNResource_def cdnHosts_def ex_cdn_request_def startsWith_def)

lemma ex_api_request_not_CDN: "\<not> isCDNResource (hostname ex_api_request)"
  by (simp add: isCDNResource_def cdnHosts_def ex_api_request_def startsWith_def)

lemma networkFirst_failure:
  "net (url req) = Inl e \<Longrightarrow>
   networkFirstStrategy net req s =
     ((case caches_match (url req) (caches s) of
         Some c \<Rightarrow> Inr (Some c)
       | None \<Rightarrow> Inr (Some offline_response)),
      s\<lparr>fetched := fetched s @ [url req]\<rparr>)"
  by (simp add: networkFirstStrategy_def fetch_def split: option.splits)

lemma startsWith_append:
  assumes "startsWith u (p @ q)"
  shows "startsWith u p"
proof -
  from assms have a: "take (length (p @ q)) u = p @ q"
    by (simp only: startsWith_def)
  have "take (length p) u = take (length p) (take (length (p @ q)) u)"
    by (simp add: min_def)
  also have "\<dots> = take (length p) (p @ q)"
    by (simp only: a)
  also have "\<dots> = p"
    by simp
  finally show ?thesis
    by (simp only: startsWith_def)
qed

lemma http_scheme_startsWith:
  "http_scheme u \<Longrightarrow> startsWith u ''http''"
  using startsWith_append [of u "''http''" "''://''"]
    startsWith_append [of u "''http''" "''s://''"]
  by (auto simp add: http_scheme_def)

lemma staleWhileRevalidate_unfold:
  "staleWhileRevalidateStrategy net req s =
     (let cs0 = caches_open DYNAMIC_CACHE_NAME (caches s);
          cached = cache_match DYNAMIC_CACHE_NAME (url req) cs0;
          s1 = s\<lparr>caches := cs0, fetched := fetched s @ [url req]\<rparr>
      in case net (url req) of
           Inr r \<Rightarrow>
             ((case cached of Some c \<Rightarrow> Inr (Some c) | None \<Rightarrow> Inr (Some r)),
              if ok r
              then s1\<lparr>caches := cache_put_request DYNAMIC_CACHE_NAME req r cs0\<rparr> else s1)
         | Inl e \<Rightarrow> (Inr cached, s1))"
  by (auto simp add: staleWhileRevalidateStrategy_def fetch_def Let_def
      split: sum.splits option.splits)

section \<open>Facts about install, activate and the background tasks\<close>

lemma foldl_caches_delete:
  "foldl (\<lambda>cs cacheName. caches_delete cacheName cs) cs names
     = filter (\<lambda>(n, p). n \<notin> set names) cs"
proof (induction names arbitrary: cs)
  case Nil
  then show ?case by simp
next
  case (Cons a names)
  have "filter (\<lambda>(n, p). n \<notin> set names) (caches_delete a cs)
      = filter (\<lambda>(n, p). n \<notin> set (a # names)) cs"
    by (induction cs) (auto simp add: caches_delete_def)
  with Cons show ?case by simp
qed

lemma on_activate_caches:
  "caches (on_activate s) = filter (\<lambda>(n, p). \<not> is_old_cache n) (caches s)"
proof -
  have "filter (\<lambda>(n, p). n \<notin> set (filter is_old_cache (caches_keys cs))) cs
      = filter (\<lambda>(n, p). \<not> is_old_cache n) cs" for cs :: cache_storage
    by (rule filter_cong) (force simp add: caches_keys_def)+
  then show ?thesis
    by (simp add: on_activate_def foldl_caches_delete)
qed

lemma map_of_filter_names:
  "map_of (filter (\<lambda>(n, p). keep n) cs) name = (if keep name then map_of cs name else None)"
  by (induction cs) auto

lemma collect_ok_Some_iff:
  "(\<exists>rs. collect_ok (map net urls) = Some rs) \<longleftrightarrow> (\<forall>u \<in> set urls. \<exists>r. net u = Inr r \<and> ok r \<and> storable r)"
proof (induction urls)
  case Nil
  then show ?case by simp
next
  case (Cons u urls)
  show ?case
  proof (cases "net u")
    case (Inl e)
    then show ?thesis by simp
  next
    case (Inr r)
    with Cons show ?thesis by (auto split: option.splits)
  qed
qed

lemma cache_cdn_resources_skipped_waiting:
  "skipped_waiting (cache_cdn_resources net urls s) = skipped_waiting s"
  by (induction urls arbitrary: s) (auto simp add: fetch_def split: sum.splits)

lemma on_install_result:
  "fst (on_install self_origin net s)
     = (case collect_ok (map net (map (resolve_key self_origin) (take 3 STATIC_FILES))) of
          Some rs \<Rightarrow> Inr () | None \<Rightarrow> Inl AddAllFailed) \<and>
   skipped_waiting (snd (on_install self_origin net s))
     = (case collect_ok (map net (map (resolve_key self_origin) (take 3 STATIC_FILES))) of
          Some rs \<Rightarrow> True | None \<Rightarrow> skipped_waiting s)"
  by (simp add: on_install_def cache_addAll_def Let_def cache_cdn_resources_skipped_waiting
      split: option.splits)

lemma local_assets:
  "map (resolve_key self_origin) (take 3 STATIC_FILES)
     = [self_origin @ ''/'', self_origin @ ''/index.html'', self_origin @ ''/manifest.json'']"
  by (simp add: STATIC_FILES_def resolve_key_def startsWith_def)

lemma process_each_Inr:
  "process_each process ts = Inr () \<longleftrightarrow> (\<forall>t \<in> set ts. process t = Inr ())"
  by (induction ts) (auto split: sum.splits)

section \<open>Facts about the entry count\<close>

lemma caches_open_present:
  "name \<in> set (caches_keys cs) \<Longrightarrow> caches_open name cs = cs"
  by (simp add: caches_open_def)

lemma count_entries_sum:
  "set names \<subseteq> set (caches_keys cs) \<Longrightarrow>
   count_entries names cs acc = acc + sum_list (map (\<lambda>n. length (partition_of n cs)) names)"
  by (induction names arbitrary: acc) (simp_all add: caches_open_present cache_keys_def)

lemma partition_lengths_distinct:
  assumes "distinct (map fst cs)"
  shows "map (\<lambda>n. length (partition_of n cs)) (map fst cs) = map (\<lambda>(n, p). length p) cs"
proof -
  have "length (partition_of (fst x) cs) = (case x of (n, p) \<Rightarrow> length p)" if "x \<in> set cs" for x
  proof -
    obtain n p where x: "x = (n, p)" by (cases x)
    with that assms have "map_of cs n = Some p" by simp
    with x show ?thesis by (simp add: partition_of_def)
  qed
  then show ?thesis by simp
qed

lemma count_entries_total:
  assumes "distinct (caches_keys cs)"
  shows "count_entries (caches_keys cs) cs 0 = total_entries_spec cs"
proof -
  have "count_entries (caches_keys cs) cs 0
      = sum_list (map (\<lambda>n. length (partition_of n cs)) (map fst cs))"
    using count_entries_sum [of "caches_keys cs" cs 0] by (simp add: caches_keys_def)
  also have "\<dots> = sum_list (map (\<lambda>(n, p). length p) cs)"
    using assms by (simp only: partition_lengths_distinct caches_keys_def)
  finally show ?thesis
    by (simp only: total_entries_spec_def)
qed

lemma total_entries_update:
  "total_entries_spec (AList.update name p cs) + length (partition_of name cs)
     = total_entries_spec cs + length p"
  by (induction cs) (auto simp add: total_entries_spec_def partition_of_def)

lemma total_entries_open:
  "total_entries_spec (caches_open name cs) = total_entries_spec cs"
  by (simp add: caches_open_def total_entries_spec_def)

lemma store_entry_fresh_length:
  "map_of p k = None \<Longrightarrow> length (store_entry k r p) = Suc (length p)"
proof -
  assume "map_of p k = None"
  then have "k \<notin> fst ` set p"
    by (simp add: map_of_eq_None_iff)
  then have "filter (\<lambda>(k', r'). k' \<noteq> k) p = p"
    by (induction p) auto
  then show ?thesis
    by (simp add: store_entry_def)
qed

lemma total_entries_store:
  assumes "cache_match name k cs = None"
  shows "total_entries_spec (cache_store name k r (caches_open name cs))
     = Suc (total_entries_spec cs)"
proof -
  let ?p = "partition_of name cs"
  let ?cs = "caches_open name cs"
  have "total_entries_spec (AList.update name (store_entry k r ?p) ?cs) + length ?p
      = total_entries_spec cs + length (store_entry k r ?p)"
    using total_entries_update [of name "store_entry k r ?p" ?cs]
    by (simp add: partition_of_open total_entries_open)
  moreover have "length (store_entry k r ?p) = Suc (length ?p)"
    using assms by (simp add: cache_match_def store_entry_fresh_length)
  ultimately show ?thesis
    by (simp add: cache_store_def partition_of_open)
qed

lemma write_entries_total:
  "distinct (map (\<lambda>(n, k, r). (n, k)) ws) \<Longrightarrow>
   (\<forall>(n, k, r) \<in> set ws. cache_match n k cs = None) \<Longrightarrow>
   total_entries_spec (write_entries ws cs) = total_entries_spec cs + length ws"
proof (induction ws arbitrary: cs)
  case Nil
  then show ?case by simp
next
  case (Cons w ws)
  obtain n k r where w: "w = (n, k, r)" by (cases w)
  let ?cs = "cache_store n k r (caches_open n cs)"
  have fresh: "cache_match n k cs = None"
    using Cons.prems(2) w by simp
  have rest: "\<forall>(n', k', r') \<in> set ws. cache_match n' k' ?cs = None"
  proof clarify
    fix n' k' r'
    assume mem: "(n', k', r') \<in> set ws"
    with Cons.prems(1) w have "(n', k') \<noteq> (n, k)" by force
    then have "cache_match n' k' ?cs = cache_match n' k' cs"
      by (simp add: cache_match_store_other cache_match_open)
    with Cons.prems(2) mem show "cache_match n' k' ?cs = None" by auto
  qed
  have "total_entries_spec (write_entries ws ?cs) = total_entries_spec ?cs + length ws"
    using Cons.prems(1) rest by (intro Cons.IH) simp_all
  with fresh w show ?case by (simp add: total_entries_store)
qed

lemma cache_store_open_distinct:
  assumes "distinct (caches_keys cs)"
  shows "distinct (caches_keys (cache_store name k r (caches_open name cs)))"
proof -
  from assms have "distinct (map fst (caches_open name cs))"
    by (simp add: caches_keys_def caches_open_def)
  then show ?thesis
    unfolding caches_keys_def cache_store_def by (rule distinct_update)
qed

lemma write_entries_distinct:
  "distinct (caches_keys cs) \<Longrightarrow> distinct (caches_keys (write_entries ws cs))"
proof (induction ws arbitrary: cs)
  case Nil
  then show ?case by simp
next
  case (Cons w ws)
  obtain n k r where w: "w = (n, k, r)" by (cases w)
  from Cons.prems have "distinct (caches_keys (cache_store n k r (caches_open n cs)))"
    by (rule cache_store_open_distinct)
  then have "distinct (caches_keys (write_entries ws (cache_store n k r (caches_open n cs))))"
    by (rule Cons.IH)
  with w show ?case by simp
qed

section \<open>The fetch handler and its strategies\<close>

text \<open>
  C1, as the specification states it, at a concrete input: the static partition holds no
  entry for a same-origin GET request and the network would answer with an ok response,
  but the dynamic partition holds an entry. The handler answers with the dynamic
  partition's entry, calls the network not at all and stores nothing in the static
  partition, where the claim has it fetch, store and return the network's response.
\<close>

theorem cacheFirst_static_miss_counterexample:
  "cache_match STATIC_CACHE_NAME (url ex_page_request)
      (caches (ex_state [(STATIC_CACHE_NAME, []),
                         (DYNAMIC_CACHE_NAME, [(url ex_page_request, ex_stale)])]))
     = None \<and>
   net_fresh (url ex_page_request) = Inr ex_fresh \<and> ok ex_fresh \<and>
   on_fetch ex_origin net_fresh ex_page_request
      (ex_state [(STATIC_CACHE_NAME, []),
                 (DYNAMIC_CACHE_NAME, [(url ex_page_request, ex_stale)])])
     = (RespondWith (Inr (Some ex_stale)),
        ex_state [(STATIC_CACHE_NAME, []),
                  (DYNAMIC_CACHE_NAME, [(url ex_page_request, ex_stale)])]) \<and>
   ex_stale \<noteq> ex_fresh \<and>
   fetched (ex_state [(STATIC_CACHE_NAME, []),
                      (DYNAMIC_CACHE_NAME, [(url ex_page_request, ex_stale)])]) = []"
  by (simp add: cache_match_def partition_of_def STATIC_CACHE_NAME_def DYNAMIC_CACHE_NAME_def
      ex_page_request_def ex_state_def net_fresh_def ex_fresh_def ex_stale_def ok_def
      on_fetch_def startsWith_def ex_origin_def cacheFirstStrategy_def)

text \<open>
  C1, amended. For every same-origin GET request with an http(s) URL:
  \<^item> if some partition holds an entry for it, the handler answers with the entry of the
    first such partition in creation order (the static partition's entry when no
    partition created before it holds one) and the worker state is unchanged: no
    network call, no revalidation;
  \<^item> if no partition holds an entry and the fetch resolves with an ok response that the
    cache accepts (its status is not 206 and its \<open>Vary\<close> header is not \<open>*\<close>), the
    handler answers with that response, after one network call, and the static
    partition then holds it under the request's URL;
  \<^item> if no partition holds an entry and the fetch resolves with a response that is not
    ok, or that the cache does not accept, the handler answers with that response and
    no entry is stored.
\<close>

theorem cacheFirst_hit_any_partition_miss_fetches:
  assumes get: "http_method req = ''GET''"
    and http: "http_scheme (url req)"
    and same: "origin req = self_origin"
  shows
    "(caches s = pre @ (n, p) # post \<and> (\<forall>(m, q) \<in> set pre. map_of q (url req) = None) \<and>
        map_of p (url req) = Some c
      \<longrightarrow> on_fetch self_origin net req s = (RespondWith (Inr (Some c)), s)) \<and>
     ((\<forall>(m, q) \<in> set (caches s). map_of q (url req) = None) \<and> net (url req) = Inr r \<and>
        ok r \<and> storable r
      \<longrightarrow> fst (on_fetch self_origin net req s) = RespondWith (Inr (Some r)) \<and>
          fetched (snd (on_fetch self_origin net req s)) = fetched s @ [url req] \<and>
          cache_match STATIC_CACHE_NAME (url req) (caches (snd (on_fetch self_origin net req s)))
            = Some r) \<and>
     ((\<forall>(m, q) \<in> set (caches s). map_of q (url req) = None) \<and> net (url req) = Inr r \<and>
        \<not> ok r
      \<longrightarrow> on_fetch self_origin net req s
            = (RespondWith (Inr (Some r)), s\<lparr>fetched := fetched s @ [url req]\<rparr>)) \<and>
     ((\<forall>(m, q) \<in> set (caches s). map_of q (url req) = None) \<and> net (url req) = Inr r \<and>
        ok r \<and> \<not> storable r
      \<longrightarrow> fst (on_fetch self_origin net req s) = RespondWith (Inr (Some r)) \<and>
          cache_match name k (caches (snd (on_fetch self_origin net req s)))
            = cache_match name k (caches s))"
proof -
  have prefix: "startsWith (url req) ''http''"
    using http by (rule http_scheme_startsWith)
  have route: "on_fetch self_origin net req s =
      (RespondWith (fst (cacheFirstStrategy self_origin net req s)),
       snd (cacheFirstStrategy self_origin net req s))"
    using get prefix same by (simp add: on_fetch_def split: prod.splits)
  have hit: "on_fetch self_origin net req s = (RespondWith (Inr (Some c)), s)"
    if "caches s = pre @ (n, p) # post \<and>
      (\<forall>(m, q) \<in> set pre. map_of q (url req) = None) \<and> map_of p (url req) = Some c"
  proof -
    from that have "caches_match (url req) (caches s) = Some c"
      using caches_match_first [of pre "url req" p c n post] by simp
    then show ?thesis
      by (simp add: route cacheFirstStrategy_def)
  qed
  have miss: "cacheFirstStrategy self_origin net req s =
      (Inr (Some r),
       if ok r
       then s\<lparr>fetched := fetched s @ [url req],
              caches := cache_put STATIC_CACHE_NAME (url req) r
                          (caches_open STATIC_CACHE_NAME (caches s))\<rparr>
       else s\<lparr>fetched := fetched s @ [url req]\<rparr>)"
    if "\<forall>(m, q) \<in> set (caches s). map_of q (url req) = None" and "net (url req) = Inr r"
  proof -
    from that(1) have "caches_match (url req) (caches s) = None"
      by (simp add: caches_match_None)
    with that(2) get http show ?thesis
      by (simp add: cacheFirstStrategy_def fetch_def cache_put_request_def)
  qed
  show ?thesis
  proof (intro conjI impI)
    assume "caches s = pre @ (n, p) # post \<and>
      (\<forall>(m, q) \<in> set pre. map_of q (url req) = None) \<and> map_of p (url req) = Some c"
    then show "on_fetch self_origin net req s = (RespondWith (Inr (Some c)), s)"
      by (rule hit)
  next
    assume h: "(\<forall>(m, q) \<in> set (caches s). map_of q (url req) = None) \<and>
      net (url req) = Inr r \<and> ok r \<and> storable r"
    then have m: "cacheFirstStrategy self_origin net req s =
        (Inr (Some r),
         s\<lparr>fetched := fetched s @ [url req],
           caches := cache_put STATIC_CACHE_NAME (url req) r
                       (caches_open STATIC_CACHE_NAME (caches s))\<rparr>)"
      using miss by simp
    show "fst (on_fetch self_origin net req s) = RespondWith (Inr (Some r))"
      by (simp add: route m)
    show "fetched (snd (on_fetch self_origin net req s)) = fetched s @ [url req]"
      by (simp add: route m)
    show "cache_match STATIC_CACHE_NAME (url req)
        (caches (snd (on_fetch self_origin net req s))) = Some r"
      using h by (simp add: route m cache_match_put_same)
  next
    assume "(\<forall>(m, q) \<in> set (caches s). map_of q (url req) = None) \<and>
      net (url req) = Inr r \<and> \<not> ok r"
    then show "on_fetch self_origin net req s
        = (RespondWith (Inr (Some r)), s\<lparr>fetched := fetched s @ [url req]\<rparr>)"
      using miss by (simp add: route)
  next
    assume h: "(\<forall>(m, q) \<in> set (caches s). map_of q (url req) = None) \<and>
      net (url req) = Inr r \<and> ok r \<and> \<not> storable r"
    then have m: "cacheFirstStrategy self_origin net req s =
        (Inr (Some r),
         s\<lparr>fetched := fetched s @ [url req],
           caches := caches_open STATIC_CACHE_NAME (caches s)\<rparr>)"
      using miss by (simp add: cache_put_rejected)
    show "fst (on_fetch self_origin net req s) = RespondWith (Inr (Some r))"
      by (simp add: route m)
    show "cache_match name k (caches (snd (on_fetch self_origin net req s)))
        = cache_match name k (caches s)"
      by (simp add: route m cache_match_open)
  qed
qed

theorem cacheFirst_hit_any_partition_miss_fetches_witness:
  "on_fetch ex_origin net_fresh ex_page_request
      (ex_state [(STATIC_CACHE_NAME, [(url ex_page_request, ex_stale)])])
     = (RespondWith (Inr (Some ex_stale)),
        ex_state [(STATIC_CACHE_NAME, [(url ex_page_request, ex_stale)])]) \<and>
   fst (on_fetch ex_origin net_fresh ex_page_request (ex_state []))
     = RespondWith (Inr (Some ex_fresh)) \<and>
   fetched (snd (on_fetch ex_origin net_fresh ex_page_request (ex_state [])))
     = [url ex_page_request] \<and>
   cache_match STATIC_CACHE_NAME (url ex_page_request)
      (caches (snd (on_fetch ex_origin net_fresh ex_page_request (ex_state [])))) = Some ex_fresh \<and>
   on_fetch ex_origin net_not_found ex_page_request (ex_state [])
     = (RespondWith (Inr (Some ex_not_found)), (ex_state [])\<lparr>fetched := [url ex_page_request]\<rparr>) \<and>
   fst (on_fetch ex_origin net_partial ex_page_request (ex_state []))
     = RespondWith (Inr (Some ex_partial)) \<and>
   cache_match STATIC_CACHE_NAME (url ex_page_request)
      (caches (snd (on_fetch ex_origin net_partial ex_page_request (ex_state [])))) = None"
proof -
  have get: "http_method ex_page_request = ''GET''"
    by (simp add: ex_page_request_def)
  have http: "http_scheme (url ex_page_request)"
    by (simp add: ex_page_request_def http_scheme_def startsWith_def)
  have same: "origin ex_page_request = ex_origin"
    by (simp add: ex_page_request_def ex_origin_def)
  note fact = cacheFirst_hit_any_partition_miss_fetches [OF get http same]
  have hit: "on_fetch ex_origin net_fresh ex_page_request
      (ex_state [(STATIC_CACHE_NAME, [(url ex_page_request, ex_stale)])])
     = (RespondWith (Inr (Some ex_stale)),
        ex_state [(STATIC_CACHE_NAME, [(url ex_page_request, ex_stale)])])"
    using fact [where s = "ex_state [(STATIC_CACHE_NAME, [(url ex_page_request, ex_stale)])]"
        and pre = "[]" and n = STATIC_CACHE_NAME and p = "[(url ex_page_request, ex_stale)]"
        and post = "[]" and c = ex_stale and net = net_fresh]
    by (simp add: ex_state_def)
  have stored: "fst (on_fetch ex_origin net_fresh ex_page_request (ex_state []))
     = RespondWith (Inr (Some ex_fresh)) \<and>
   fetched (snd (on_fetch ex_origin net_fresh ex_page_request (ex_state [])))
     = [url ex_page_request] \<and>
   cache_match STATIC_CACHE_NAME (url ex_page_request)
      (caches (snd (on_fetch ex_origin net_fresh ex_page_request (ex_state [])))) = Some ex_fresh"
    using fact [where s = "ex_state []" and net = net_fresh and r = ex_fresh]
    by (simp add: ex_state_def net_fresh_def ex_fresh_def ok_def storable_def)
  have not_stored: "on_fetch ex_origin net_not_found ex_page_request (ex_state [])
     = (RespondWith (Inr (Some ex_not_found)), (ex_state [])\<lparr>fetched := [url ex_page_request]\<rparr>)"
    using fact [where s = "ex_state []" and net = net_not_found and r = ex_not_found]
    by (simp add: ex_state_def net_not_found_def ex_not_found_def ok_def)
  have partial: "fst (on_fetch ex_origin net_partial ex_page_request (ex_state []))
     = RespondWith (Inr (Some ex_partial)) \<and>
   cache_match STATIC_CACHE_NAME (url ex_page_request)
      (caches (snd (on_fetch ex_origin net_partial ex_page_request (ex_state [])))) = None"
    using fact [where s = "ex_state []" and net = net_partial and r = ex_partial
        and name = STATIC_CACHE_NAME and k = "url ex_page_request"]
    by (simp add: ex_state_def net_partial_def ex_partial_def ok_def storable_def
        cache_match_def partition_of_def)
  from hit stored not_stored partial show ?thesis by simp
qed

text \<open>
  C2, as the specification states it, at a concrete input: the dynamic partition holds
  an entry for a GET request to an allow-listed origin, and the refresh succeeds with an
  ok response of status 206, which the cache does not accept. The un-awaited \<open>put\<close>
  rejects and the old entry stays, where the claim has the entry reflect the new value.
\<close>

theorem staleWhileRevalidate_partial_refresh_counterexample:
  "cache_match DYNAMIC_CACHE_NAME (url ex_cdn_request)
      (caches (ex_state [(DYNAMIC_CACHE_NAME, [(url ex_cdn_request, ex_stale)])]))
     = Some ex_stale \<and>
   net_partial (url ex_cdn_request) = Inr ex_partial \<and> ok ex_partial \<and>
   cache_match DYNAMIC_CACHE_NAME (url ex_cdn_request)
      (caches (snd (on_fetch ex_origin net_partial ex_cdn_request
          (ex_state [(DYNAMIC_CACHE_NAME, [(url ex_cdn_request, ex_stale)])]))))
     = Some ex_stale \<and>
   ex_stale \<noteq> ex_partial"
  by (simp add: on_fetch_def ex_cdn_request_isCDN staleWhileRevalidate_unfold Let_def
      cache_put_request_def cache_put_def storable_def caches_open_def caches_keys_def
      cache_match_def partition_of_def ex_state_def net_partial_def ex_partial_def ok_def
      ex_stale_def ex_origin_def ex_cdn_request_def startsWith_def http_scheme_def
      isCDNResource_def cdnHosts_def)

text \<open>
  C2, amended. For every GET request to an allow-listed external origin with an entry in
  the dynamic partition, the handler answers with that entry whatever the network does,
  and one network call is made for the refresh. If the refresh resolves with an ok
  response that the cache accepts (its status is not 206 and its \<open>Vary\<close> header is not
  \<open>*\<close>), the dynamic partition then holds that response under the request's URL and
  every other entry is as before; if the refresh fails, or resolves with a response that
  is not ok or that the cache does not accept, the cache storage is unchanged.
\<close>

theorem staleWhileRevalidate_serves_entry_then_refreshes:
  assumes get: "http_method req = ''GET''"
    and http: "http_scheme (url req)"
    and external: "origin req \<noteq> self_origin"
    and cdn: "isCDNResource (hostname req)"
    and entry: "cache_match DYNAMIC_CACHE_NAME (url req) (caches s) = Some c"
  shows
    "fst (on_fetch self_origin net req s) = RespondWith (Inr (Some c)) \<and>
     fetched (snd (on_fetch self_origin net req s)) = fetched s @ [url req] \<and>
     (net (url req) = Inr r \<and> ok r \<and> storable r \<longrightarrow>
        cache_match DYNAMIC_CACHE_NAME (url req) (caches (snd (on_fetch self_origin net req s)))
          = Some r) \<and>
     (net (url req) = Inr r \<and> ok r \<and> storable r \<and>
        (name \<noteq> DYNAMIC_CACHE_NAME \<or> k \<noteq> url req) \<longrightarrow>
        cache_match name k (caches (snd (on_fetch self_origin net req s)))
          = cache_match name k (caches s)) \<and>
     (net (url req) = Inl e \<longrightarrow> caches (snd (on_fetch self_origin net req s)) = caches s) \<and>
     (net (url req) = Inr r \<and> \<not> (ok r \<and> storable r) \<longrightarrow>
        caches (snd (on_fetch self_origin net req s)) = caches s)"
proof -
  have prefix: "startsWith (url req) ''http''"
    using http by (rule http_scheme_startsWith)
  have opened: "caches_open DYNAMIC_CACHE_NAME (caches s) = caches s"
    using entry by (rule cache_match_Some_open)
  have route: "on_fetch self_origin net req s =
      (RespondWith (fst (staleWhileRevalidateStrategy net req s)),
       snd (staleWhileRevalidateStrategy net req s))"
    using get prefix external cdn by (simp add: on_fetch_def split: prod.splits)
  have put: "cache_put_request DYNAMIC_CACHE_NAME req r' cs
      = cache_put DYNAMIC_CACHE_NAME (url req) r' cs" for r' cs
    using get http by (simp add: cache_put_request_def)
  show ?thesis
    unfolding route fst_conv snd_conv
    using entry
    by (cases "net (url req)")
       (auto simp add: staleWhileRevalidate_unfold opened Let_def put cache_match_put_same
          cache_match_put_other cache_put_rejected)
qed

theorem staleWhileRevalidate_serves_entry_then_refreshes_witness:
  "fst (on_fetch ex_origin net_fresh ex_cdn_request
          (ex_state [(DYNAMIC_CACHE_NAME, [(url ex_cdn_request, ex_stale)])]))
     = RespondWith (Inr (Some ex_stale)) \<and>
   fetched (snd (on_fetch ex_origin net_fresh ex_cdn_request
          (ex_state [(DYNAMIC_CACHE_NAME, [(url ex_cdn_request, ex_stale)])])))
     = [url ex_cdn_request] \<and>
   cache_match DYNAMIC_CACHE_NAME (url ex_cdn_request)
      (caches (snd (on_fetch ex_origin net_fresh ex_cdn_request
          (ex_state [(DYNAMIC_CACHE_NAME, [(url ex_cdn_request, ex_stale)])]))))
     = Some ex_fresh \<and>
   fst (on_fetch ex_origin net_down ex_cdn_request
          (ex_state [(DYNAMIC_CACHE_NAME, [(url ex_cdn_request, ex_stale)])]))
     = RespondWith (Inr (Some ex_stale)) \<and>
   caches (snd (on_fetch ex_origin net_down ex_cdn_request
          (ex_state [(DYNAMIC_CACHE_NAME, [(url ex_cdn_request, ex_stale)])])))
     = [(DYNAMIC_CACHE_NAME, [(url ex_cdn_request, ex_stale)])] \<and>
   caches (snd (on_fetch ex_origin net_partial ex_cdn_request
          (ex_state [(DYNAMIC_CACHE_NAME, [(url ex_cdn_request, ex_stale)])])))
     = [(DYNAMIC_CACHE_NAME, [(url ex_cdn_request, ex_stale)])]"
proof -
  have get: "http_method ex_cdn_request = ''GET''"
    by (simp add: ex_cdn_request_def)
  have http: "http_scheme (url ex_cdn_request)"
    by (simp add: ex_cdn_request_def http_scheme_def startsWith_def)
  have external: "origin ex_cdn_request \<noteq> ex_origin"
    by (simp add: ex_cdn_request_def ex_origin_def)
  have entry: "cache_match DYNAMIC_CACHE_NAME (url ex_cdn_request)
      (caches (ex_state [(DYNAMIC_CACHE_NAME, [(url ex_cdn_request, ex_stale)])])) = Some ex_stale"
    by (simp add: cache_match_def partition_of_def ex_state_def)
  note fact = staleWhileRevalidate_serves_entry_then_refreshes
    [OF get http external ex_cdn_request_isCDN entry]
  show ?thesis
    using fact [where net = net_fresh and r = ex_fresh]
      fact [where net = net_down and e = FetchFailed]
      fact [where net = net_partial and r = ex_partial]
    by (simp add: net_fresh_def net_down_def net_partial_def ex_fresh_def ex_partial_def
        ok_def storable_def ex_state_def)
qed

text \<open>
  C3, as the specification states it, at a concrete input: the dynamic partition holds
  no entry and the network fetch fails. The strategy does not settle with that failure:
  the failure is caught, and what the caller receives is not it.
\<close>

theorem staleWhileRevalidate_miss_failure_counterexample:
  "cache_match DYNAMIC_CACHE_NAME (url ex_cdn_request) (caches (ex_state [])) = None \<and>
   net_down (url ex_cdn_request) = Inl FetchFailed \<and>
   fst (staleWhileRevalidateStrategy net_down ex_cdn_request (ex_state [])) = Inr None \<and>
   fst (staleWhileRevalidateStrategy net_down ex_cdn_request (ex_state [])) \<noteq> Inl FetchFailed"
  by (simp add: staleWhileRevalidate_unfold cache_match_def partition_of_def ex_state_def
      net_down_def caches_open_def caches_keys_def Let_def)

text \<open>
  C3, amended. For every stale-while-revalidate request with no entry in the dynamic
  partition: when the network fetch resolves, the caller receives the network's
  response; when the network fetch fails, the failure is caught and is not propagated
  to the caller (the strategy does not reject), one network call has been made and the
  partition still holds no entry for the request.
\<close>

theorem staleWhileRevalidate_miss_network_result:
  assumes miss: "cache_match DYNAMIC_CACHE_NAME (url req) (caches s) = None"
  shows
    "(net (url req) = Inr r \<longrightarrow>
        fst (staleWhileRevalidateStrategy net req s) = Inr (Some r)) \<and>
     (net (url req) = Inl e \<longrightarrow>
        fst (staleWhileRevalidateStrategy net req s) \<noteq> Inl e' \<and>
        fetched (snd (staleWhileRevalidateStrategy net req s)) = fetched s @ [url req] \<and>
        cache_match DYNAMIC_CACHE_NAME (url req)
          (caches (snd (staleWhileRevalidateStrategy net req s))) = None)"
  using miss
  by (cases "net (url req)") (auto simp add: staleWhileRevalidate_unfold cache_match_open Let_def)

theorem staleWhileRevalidate_miss_network_result_witness:
  "fst (staleWhileRevalidateStrategy net_fresh ex_cdn_request (ex_state [])) = Inr (Some ex_fresh) \<and>
   fst (staleWhileRevalidateStrategy net_not_found ex_cdn_request (ex_state []))
     = Inr (Some ex_not_found) \<and>
   fst (staleWhileRevalidateStrategy net_down ex_cdn_request (ex_state [])) \<noteq> Inl FetchFailed \<and>
   fetched (snd (staleWhileRevalidateStrategy net_down ex_cdn_request (ex_state [])))
     = [url ex_cdn_request]"
proof -
  have miss: "cache_match DYNAMIC_CACHE_NAME (url ex_cdn_request) (caches (ex_state [])) = None"
    by (simp add: cache_match_def partition_of_def ex_state_def)
  note fact = staleWhileRevalidate_miss_network_result [OF miss]
  show ?thesis
    using fact [where net = net_fresh and r = ex_fresh]
      fact [where net = net_not_found and r = ex_not_found]
      fact [where net = net_down and e = FetchFailed and e' = FetchFailed]
    by (simp add: net_fresh_def net_not_found_def net_down_def ex_state_def)
qed

text \<open>
  C4, as the specification states it, at a concrete input: the network fetch fails and
  the dynamic partition holds no entry for the request, but the static partition does.
  The strategy returns the static partition's entry, where the claim has it return the
  synthesized 503 response.
\<close>

theorem networkFirst_failure_static_entry_counterexample:
  "net_down (url ex_api_request) = Inl FetchFailed \<and>
   cache_match DYNAMIC_CACHE_NAME (url ex_api_request)
      (caches (ex_state [(STATIC_CACHE_NAME, [(url ex_api_request, ex_stale)]),
                         (DYNAMIC_CACHE_NAME, [])])) = None \<and>
   fst (networkFirstStrategy net_down ex_api_request
          (ex_state [(STATIC_CACHE_NAME, [(url ex_api_request, ex_stale)]),
                     (DYNAMIC_CACHE_NAME, [])])) = Inr (Some ex_stale) \<and>
   ex_stale \<noteq> offline_response"
  by (simp add: networkFirst_failure net_down_def cache_match_def partition_of_def
      ex_state_def STATIC_CACHE_NAME_def DYNAMIC_CACHE_NAME_def ex_stale_def
      offline_response_def)

text \<open>
  C4, amended. For every network-first request whose network fetch fails with a
  network error, exactly one of two cases holds. Either some partition holds an entry
  for the request: then the entry of the first such partition in creation order,
  whatever its name, is returned rather than an error (the dynamic partition's entry
  when no partition created before it holds one). Or no partition at all holds an
  entry: then the synthesized 503 response with the fixed status text is returned. In
  both cases one network call was made and the cache storage is unchanged.
\<close>

theorem networkFirst_failure_first_entry_or_503:
  assumes down: "net (url req) = Inl e"
  shows
    "(caches s = pre @ (n, p) # post \<and>
        (\<forall>(m, q) \<in> set pre. map_of q (url req) = None) \<and> map_of p (url req) = Some c
      \<longrightarrow> networkFirstStrategy net req s
            = (Inr (Some c), s\<lparr>fetched := fetched s @ [url req]\<rparr>)) \<and>
     ((\<forall>(m, q) \<in> set (caches s). map_of q (url req) = None)
      \<longrightarrow> networkFirstStrategy net req s
            = (Inr (Some offline_response), s\<lparr>fetched := fetched s @ [url req]\<rparr>)) \<and>
     ((\<exists>pre n p post c. caches s = pre @ (n, p) # post \<and>
          (\<forall>(m, q) \<in> set pre. map_of q (url req) = None) \<and> map_of p (url req) = Some c) \<or>
      (\<forall>(m, q) \<in> set (caches s). map_of q (url req) = None)) \<and>
     status offline_response = 503 \<and>
     statusText offline_response = ''Service Unavailable''"
proof (intro conjI impI)
  assume "caches s = pre @ (n, p) # post \<and>
    (\<forall>(m, q) \<in> set pre. map_of q (url req) = None) \<and> map_of p (url req) = Some c"
  then have "caches_match (url req) (caches s) = Some c"
    using caches_match_first [of pre "url req" p c n post] by simp
  then show "networkFirstStrategy net req s
      = (Inr (Some c), s\<lparr>fetched := fetched s @ [url req]\<rparr>)"
    by (simp add: networkFirst_failure [of net req e, OF down])
next
  assume "\<forall>(m, q) \<in> set (caches s). map_of q (url req) = None"
  then have "caches_match (url req) (caches s) = None"
    by (simp add: caches_match_None)
  then show "networkFirstStrategy net req s
      = (Inr (Some offline_response), s\<lparr>fetched := fetched s @ [url req]\<rparr>)"
    by (simp add: networkFirst_failure [of net req e, OF down])
next
  show "(\<exists>pre n p post c. caches s = pre @ (n, p) # post \<and>
          (\<forall>(m, q) \<in> set pre. map_of q (url req) = None) \<and> map_of p (url req) = Some c) \<or>
      (\<forall>(m, q) \<in> set (caches s). map_of q (url req) = None)"
  proof (cases "caches_match (url req) (caches s)")
    case None
    then show ?thesis by (simp add: caches_match_None)
  next
    case (Some c')
    from caches_match_Some_decomp [OF this] show ?thesis by blast
  qed
qed (simp_all add: offline_response_def)

theorem networkFirst_failure_first_entry_or_503_witness:
  "networkFirstStrategy net_down ex_api_request
      (ex_state [(STATIC_CACHE_NAME, []),
                 (DYNAMIC_CACHE_NAME, [(url ex_api_request, ex_stale)])])
     = (Inr (Some ex_stale),
        (ex_state [(STATIC_CACHE_NAME, []),
                   (DYNAMIC_CACHE_NAME, [(url ex_api_request, ex_stale)])])
          \<lparr>fetched := [url ex_api_request]\<rparr>) \<and>
   networkFirstStrategy net_down ex_api_request
      (ex_state [(''images'', [(url ex_api_request, ex_fresh)]),
                 (DYNAMIC_CACHE_NAME, [(url ex_api_request, ex_stale)])])
     = (Inr (Some ex_fresh),
        (ex_state [(''images'', [(url ex_api_request, ex_fresh)]),
                   (DYNAMIC_CACHE_NAME, [(url ex_api_request, ex_stale)])])
          \<lparr>fetched := [url ex_api_request]\<rparr>) \<and>
   networkFirstStrategy net_down ex_api_request
      (ex_state [(STATIC_CACHE_NAME, []), (DYNAMIC_CACHE_NAME, [])])
     = (Inr (Some offline_response),
        (ex_state [(STATIC_CACHE_NAME, []), (DYNAMIC_CACHE_NAME, [])])
          \<lparr>fetched := [url ex_api_request]\<rparr>)"
proof -
  have down: "net_down (url ex_api_request) = Inl FetchFailed"
    by (simp add: net_down_def)
  note fact = networkFirst_failure_first_entry_or_503
    [where net = net_down and req = ex_api_request and e = FetchFailed, OF down]
  have dynamic_entry: "networkFirstStrategy net_down ex_api_request
      (ex_state [(STATIC_CACHE_NAME, []),
                 (DYNAMIC_CACHE_NAME, [(url ex_api_request, ex_stale)])])
     = (Inr (Some ex_stale),
        (ex_state [(STATIC_CACHE_NAME, []),
                   (DYNAMIC_CACHE_NAME, [(url ex_api_request, ex_stale)])])
          \<lparr>fetched := [url ex_api_request]\<rparr>)"
    using fact [where s = "ex_state [(STATIC_CACHE_NAME, []),
                     (DYNAMIC_CACHE_NAME, [(url ex_api_request, ex_stale)])]"
        and pre = "[(STATIC_CACHE_NAME, [])]" and n = DYNAMIC_CACHE_NAME
        and p = "[(url ex_api_request, ex_stale)]" and post = "[]" and c = ex_stale]
    by (simp add: ex_state_def)
  have earlier_entry: "networkFirstStrategy net_down ex_api_request
      (ex_state [(''images'', [(url ex_api_request, ex_fresh)]),
                 (DYNAMIC_CACHE_NAME, [(url ex_api_request, ex_stale)])])
     = (Inr (Some ex_fresh),
        (ex_state [(''images'', [(url ex_api_request, ex_fresh)]),
                   (DYNAMIC_CACHE_NAME, [(url ex_api_request, ex_stale)])])
          \<lparr>fetched := [url ex_api_request]\<rparr>)"
    using fact [where s = "ex_state [(''images'', [(url ex_api_request, ex_fresh)]),
                     (DYNAMIC_CACHE_NAME, [(url ex_api_request, ex_stale)])]"
        and pre = "[]" and n = "''images''"
        and p = "[(url ex_api_request, ex_fresh)]"
        and post = "[(DYNAMIC_CACHE_NAME, [(url ex_api_request, ex_stale)])]" and c = ex_fresh]
    by (simp add: ex_state_def)
  have no_entry: "networkFirstStrategy net_down ex_api_request
      (ex_state [(STATIC_CACHE_NAME, []), (DYNAMIC_CACHE_NAME, [])])
     = (Inr (Some offline_response),
        (ex_state [(STATIC_CACHE_NAME, []), (DYNAMIC_CACHE_NAME, [])])
          \<lparr>fetched := [url ex_api_request]\<rparr>)"
    using fact [where s = "ex_state [(STATIC_CACHE_NAME, []), (DYNAMIC_CACHE_NAME, [])]"]
    by (simp add: ex_state_def)
  from dynamic_entry earlier_entry no_entry show ?thesis by simp
qed

text \<open>
  C10. For every network-first request whose network fetch fails, the fallback lookup
  searches every partition: the entry of the first partition in creation order that
  holds one for the request is returned, whatever the name of that partition; and
  whenever any partition holds an entry for the request, the fallback is an entry some
  partition holds for it.
\<close>

theorem networkFirst_fallback_searches_every_partition:
  assumes down: "net (url req) = Inl e"
  shows
    "(caches s = pre @ (n, p) # post \<and>
        (\<forall>(m, q) \<in> set pre. map_of q (url req) = None) \<and> map_of p (url req) = Some c
      \<longrightarrow> fst (networkFirstStrategy net req s) = Inr (Some c)) \<and>
     ((n, p) \<in> set (caches s) \<and> map_of p (url req) = Some c
      \<longrightarrow> (\<exists>n' p' c'. (n', p') \<in> set (caches s) \<and> map_of p' (url req) = Some c' \<and>
            fst (networkFirstStrategy net req s) = Inr (Some c')))"
proof (intro conjI impI)
  assume "caches s = pre @ (n, p) # post \<and>
    (\<forall>(m, q) \<in> set pre. map_of q (url req) = None) \<and> map_of p (url req) = Some c"
  then have "caches_match (url req) (caches s) = Some c"
    using caches_match_first [of pre "url req" p c n post] by simp
  then show "fst (networkFirstStrategy net req s) = Inr (Some c)"
    by (simp add: networkFirst_failure [of net req e, OF down])
next
  assume held: "(n, p) \<in> set (caches s) \<and> map_of p (url req) = Some c"
  have "caches_match (url req) (caches s) \<noteq> None"
  proof
    assume "caches_match (url req) (caches s) = None"
    then have "\<forall>(m, q) \<in> set (caches s). map_of q (url req) = None"
      by (simp add: caches_match_None)
    with held show False by force
  qed
  then obtain c' where found: "caches_match (url req) (caches s) = Some c'"
    by auto
  then obtain n' p' where "(n', p') \<in> set (caches s)" "map_of p' (url req) = Some c'"
    using caches_match_Some_member by blast
  moreover have "fst (networkFirstStrategy net req s) = Inr (Some c')"
    by (simp add: networkFirst_failure [of net req e, OF down] found)
  ultimately show "\<exists>n' p' c'. (n', p') \<in> set (caches s) \<and> map_of p' (url req) = Some c' \<and>
      fst (networkFirstStrategy net req s) = Inr (Some c')"
    by blast
qed

theorem networkFirst_fallback_searches_every_partition_witness:
  "fst (networkFirstStrategy net_down ex_api_request
          (ex_state [(STATIC_CACHE_NAME, [(url ex_api_request, ex_fresh)]),
                     (DYNAMIC_CACHE_NAME, [])]))
     = Inr (Some ex_fresh) \<and>
   fst (networkFirstStrategy net_down ex_api_request
          (ex_state [(''images'', [(url ex_api_request, ex_stale)])]))
     = Inr (Some ex_stale)"
proof -
  have down: "net_down (url ex_api_request) = Inl FetchFailed"
    by (simp add: net_down_def)
  note fact = networkFirst_fallback_searches_every_partition
    [where net = net_down and req = ex_api_request and e = FetchFailed, OF down]
  show ?thesis
    using fact [where s = "ex_state [(STATIC_CACHE_NAME, [(url ex_api_request, ex_fresh)]),
                     (DYNAMIC_CACHE_NAME, [])]"
        and pre = "[]" and n = STATIC_CACHE_NAME and p = "[(url ex_api_request, ex_fresh)]"
        and post = "[(DYNAMIC_CACHE_NAME, [])]" and c = ex_fresh]
      fact [where s = "ex_state [(''images'', [(url ex_api_request, ex_stale)])]"
        and pre = "[]" and n = "''images''" and p = "[(url ex_api_request, ex_stale)]"
        and post = "[]" and c = ex_stale]
    by (simp add: ex_state_def)
qed

text \<open>
  C7. For every request that a fetch event carries, if it is not GET-method or not
  http(s)-scheme then the handler performs no interception and the worker state, with
  every cache partition, is unchanged: the request passes through to the platform. A
  GET request of http(s)-scheme is intercepted. The source tests that the URL starts
  with the letters \<open>http\<close>, which on the URLs that requests carry is the test for the
  two schemes.
\<close>

theorem fetch_filter_passes_through:
  assumes carried: "carried_url (url req)"
  shows
    "(http_method req \<noteq> ''GET'' \<or> \<not> http_scheme (url req)
        \<longrightarrow> on_fetch self_origin net req s = (PassThrough, s)) \<and>
     (http_method req = ''GET'' \<and> http_scheme (url req)
        \<longrightarrow> fst (on_fetch self_origin net req s) \<noteq> PassThrough)"
proof (intro conjI impI)
  assume "http_method req \<noteq> ''GET'' \<or> \<not> http_scheme (url req)"
  then have "http_method req \<noteq> ''GET'' \<or> \<not> startsWith (url req) ''http''"
    using carried by (auto simp add: carried_url_def)
  then show "on_fetch self_origin net req s = (PassThrough, s)"
    by (auto simp add: on_fetch_def)
next
  assume "http_method req = ''GET'' \<and> http_scheme (url req)"
  then have "http_method req = ''GET''" and "startsWith (url req) ''http''"
    by (simp_all add: http_scheme_startsWith)
  then show "fst (on_fetch self_origin net req s) \<noteq> PassThrough"
    by (simp add: on_fetch_def split: prod.splits)
qed

theorem fetch_filter_passes_through_witness:
  "on_fetch ex_origin net_fresh ex_post_request (ex_state [(STATIC_CACHE_NAME, [])])
     = (PassThrough, ex_state [(STATIC_CACHE_NAME, [])]) \<and>
   on_fetch ex_origin net_fresh ex_extension_request (ex_state [(STATIC_CACHE_NAME, [])])
     = (PassThrough, ex_state [(STATIC_CACHE_NAME, [])]) \<and>
   fst (on_fetch ex_origin net_fresh ex_page_request (ex_state [(STATIC_CACHE_NAME, [])]))
     \<noteq> PassThrough"
proof -
  have post_carried: "carried_url (url ex_post_request)"
    by (simp add: carried_url_def http_scheme_def ex_post_request_def startsWith_def)
  have extension_carried: "carried_url (url ex_extension_request)"
    by (simp add: carried_url_def ex_extension_request_def startsWith_def)
  have page_carried: "carried_url (url ex_page_request)"
    by (simp add: carried_url_def http_scheme_def ex_page_request_def startsWith_def)
  have not_get: "http_method ex_post_request \<noteq> ''GET''"
    by (simp add: ex_post_request_def)
  have not_http: "\<not> http_scheme (url ex_extension_request)"
    by (simp add: http_scheme_def ex_extension_request_def startsWith_def)
  have get_http: "http_method ex_page_request = ''GET'' \<and> http_scheme (url ex_page_request)"
    by (simp add: http_scheme_def ex_page_request_def startsWith_def)
  from fetch_filter_passes_through
    [OF post_carried, of ex_origin net_fresh "ex_state [(STATIC_CACHE_NAME, [])]"] not_get
  have a: "on_fetch ex_origin net_fresh ex_post_request (ex_state [(STATIC_CACHE_NAME, [])])
     = (PassThrough, ex_state [(STATIC_CACHE_NAME, [])])"
    by blast
  from fetch_filter_passes_through
    [OF extension_carried, of ex_origin net_fresh "ex_state [(STATIC_CACHE_NAME, [])]"] not_http
  have b: "on_fetch ex_origin net_fresh ex_extension_request (ex_state [(STATIC_CACHE_NAME, [])])
     = (PassThrough, ex_state [(STATIC_CACHE_NAME, [])])"
    by blast
  from fetch_filter_passes_through
    [OF page_carried, of ex_origin net_fresh "ex_state [(STATIC_CACHE_NAME, [])]"] get_http
  have c: "fst (on_fetch ex_origin net_fresh ex_page_request (ex_state [(STATIC_CACHE_NAME, [])]))
     \<noteq> PassThrough"
    by blast
  from a b c show ?thesis by simp
qed

section \<open>Install and activate\<close>

text \<open>
  C5, as the specification states it, at a concrete input: the extant partitions are the
  two current ones and a third called \<open>images-v1\<close>. Activation deletes nothing: the
  third partition survives, because the source deletes only names that start with
  \<open>finance-\<close>.
\<close>

theorem activate_keeps_foreign_partition_counterexample:
  "''images-v1'' \<noteq> STATIC_CACHE_NAME \<and> ''images-v1'' \<noteq> DYNAMIC_CACHE_NAME \<and>
   caches_keys (caches (on_activate
      (ex_state [(STATIC_CACHE_NAME, []), (DYNAMIC_CACHE_NAME, []), (''images-v1'', [])])))
     = [STATIC_CACHE_NAME, DYNAMIC_CACHE_NAME, ''images-v1'']"
  by (simp add: on_activate_caches is_old_cache_def startsWith_def caches_keys_def
      ex_state_def STATIC_CACHE_NAME_def DYNAMIC_CACHE_NAME_def)

text \<open>
  C5, amended. On activate, cleanup deletes exactly those extant partitions whose names
  start with \<open>finance-\<close> and are not one of the two current names; the partitions
  that stay keep their order and their entries. In particular the current static and
  dynamic partitions, and every partition whose name does not start with
  \<open>finance-\<close>, are untouched.
\<close>

theorem activate_deletes_old_finance_partitions:
  "caches (on_activate s)
     = filter (\<lambda>(n, p). \<not> startsWith n ''finance-'' \<or> n = STATIC_CACHE_NAME \<or>
                           n = DYNAMIC_CACHE_NAME) (caches s) \<and>
   set (caches_keys (caches s)) - set (caches_keys (caches (on_activate s)))
     = {n \<in> set (caches_keys (caches s)).
          startsWith n ''finance-'' \<and> n \<noteq> STATIC_CACHE_NAME \<and> n \<noteq> DYNAMIC_CACHE_NAME} \<and>
   partition_of STATIC_CACHE_NAME (caches (on_activate s))
     = partition_of STATIC_CACHE_NAME (caches s) \<and>
   partition_of DYNAMIC_CACHE_NAME (caches (on_activate s))
     = partition_of DYNAMIC_CACHE_NAME (caches s) \<and>
   (\<not> startsWith name ''finance-'' \<longrightarrow>
      partition_of name (caches (on_activate s)) = partition_of name (caches s))"
proof (intro conjI impI)
  show "caches (on_activate s)
     = filter (\<lambda>(n, p). \<not> startsWith n ''finance-'' \<or> n = STATIC_CACHE_NAME \<or>
                           n = DYNAMIC_CACHE_NAME) (caches s)"
    by (simp add: on_activate_caches is_old_cache_def)
  show "set (caches_keys (caches s)) - set (caches_keys (caches (on_activate s)))
     = {n \<in> set (caches_keys (caches s)).
          startsWith n ''finance-'' \<and> n \<noteq> STATIC_CACHE_NAME \<and> n \<noteq> DYNAMIC_CACHE_NAME}"
    by (force simp add: on_activate_caches is_old_cache_def caches_keys_def)
  show "partition_of STATIC_CACHE_NAME (caches (on_activate s))
     = partition_of STATIC_CACHE_NAME (caches s)"
    by (simp add: on_activate_caches partition_of_def map_of_filter_names is_old_cache_def)
  show "partition_of DYNAMIC_CACHE_NAME (caches (on_activate s))
     = partition_of DYNAMIC_CACHE_NAME (caches s)"
    by (simp add: on_activate_caches partition_of_def map_of_filter_names is_old_cache_def)
next
  assume "\<not> startsWith name ''finance-''"
  then show "partition_of name (caches (on_activate s)) = partition_of name (caches s)"
    by (simp add: on_activate_caches partition_of_def map_of_filter_names is_old_cache_def)
qed

theorem activate_deletes_old_finance_partitions_witness:
  "caches (on_activate
      (ex_state [(STATIC_CACHE_NAME, [(''/'', ex_fresh)]),
                 (''finance-static-v2.0.0'', [(''/'', ex_stale)]),
                 (DYNAMIC_CACHE_NAME, []),
                 (''images-v1'', [(''/logo.png'', ex_stale)])]))
     = [(STATIC_CACHE_NAME, [(''/'', ex_fresh)]),
        (DYNAMIC_CACHE_NAME, []),
        (''images-v1'', [(''/logo.png'', ex_stale)])]"
  using activate_deletes_old_finance_partitions
    [of "ex_state [(STATIC_CACHE_NAME, [(''/'', ex_fresh)]),
                 (''finance-static-v2.0.0'', [(''/'', ex_stale)]),
                 (DYNAMIC_CACHE_NAME, []),
                 (''images-v1'', [(''/logo.png'', ex_stale)])]" "''images-v1''"]
  by (simp add: ex_state_def startsWith_def STATIC_CACHE_NAME_def DYNAMIC_CACHE_NAME_def)

text \<open>
  C6, as the specification states it, at a concrete input: the fetch of
  \<open>/index.html\<close>, one of the three local assets, fails and every other fetch
  succeeds. The promise given to \<open>waitUntil\<close> rejects, so the installation fails, and
  \<open>skipWaiting\<close> is never called.
\<close>

theorem install_local_asset_failure_counterexample:
  "net_no_index (resolve_key ex_origin ''/index.html'') = Inl FetchFailed \<and>
   fst (on_install ex_origin net_no_index (ex_state [])) = Inl AddAllFailed \<and>
   \<not> skipped_waiting (snd (on_install ex_origin net_no_index (ex_state [])))"
  by (simp add: on_install_result local_assets net_no_index_def ex_fresh_def ok_def
      storable_def ex_state_def ex_origin_def resolve_key_def startsWith_def)

text \<open>
  C6, amended. For every install run: when each of the three local static assets is
  fetched with an ok response that the cache accepts (its status is not 206 and its
  \<open>Vary\<close> header is not \<open>*\<close>), installation completes and concludes by calling
  \<open>skipWaiting\<close>, whatever happens to the fetches of the external resources, whose
  failures are not fatal. When the fetch of any of the three local static assets fails,
  or resolves with a response that is not ok or that the cache does not accept, the
  installation fails and \<open>skipWaiting\<close> is not called.
\<close>

theorem install_fatal_only_for_local_assets:
  "((\<forall>u \<in> set [''/'', ''/index.html'', ''/manifest.json''].
        \<exists>r. net (self_origin @ u) = Inr r \<and> ok r \<and> storable r)
      \<longrightarrow> fst (on_install self_origin net s) = Inr () \<and>
          skipped_waiting (snd (on_install self_origin net s))) \<and>
   (\<not> (\<forall>u \<in> set [''/'', ''/index.html'', ''/manifest.json''].
          \<exists>r. net (self_origin @ u) = Inr r \<and> ok r \<and> storable r)
      \<longrightarrow> fst (on_install self_origin net s) = Inl AddAllFailed \<and>
          skipped_waiting (snd (on_install self_origin net s)) = skipped_waiting s)"
proof -
  let ?keys = "map (resolve_key self_origin) (take 3 STATIC_FILES)"
  let ?all = "\<forall>u \<in> set [''/'', ''/index.html'', ''/manifest.json''].
      \<exists>r. net (self_origin @ u) = Inr r \<and> ok r \<and> storable r"
  have "(\<exists>rs. collect_ok (map net ?keys) = Some rs)
      \<longleftrightarrow> (\<forall>k \<in> set ?keys. \<exists>r. net k = Inr r \<and> ok r \<and> storable r)"
    by (rule collect_ok_Some_iff)
  also have "\<dots> \<longleftrightarrow> ?all"
    by (simp only: local_assets) simp
  finally have iff: "(\<exists>rs. collect_ok (map net ?keys) = Some rs) \<longleftrightarrow> ?all" .
  show ?thesis
  proof (cases "collect_ok (map net ?keys)")
    case None
    with iff have "\<not> ?all" by simp
    with None show ?thesis by (simp only: on_install_result) simp
  next
    case (Some rs)
    with iff have ?all by blast
    with Some show ?thesis by (simp only: on_install_result) simp
  qed
qed

theorem install_fatal_only_for_local_assets_witness:
  "fst (on_install ex_origin net_local_only (ex_state [])) = Inr () \<and>
   skipped_waiting (snd (on_install ex_origin net_local_only (ex_state []))) \<and>
   fst (on_install ex_origin net_down (ex_state [])) = Inl AddAllFailed \<and>
   \<not> skipped_waiting (snd (on_install ex_origin net_down (ex_state []))) \<and>
   fst (on_install ex_origin net_partial (ex_state [])) = Inl AddAllFailed \<and>
   \<not> skipped_waiting (snd (on_install ex_origin net_partial (ex_state [])))"
proof -
  have all_ok: "\<forall>u \<in> set [''/'', ''/index.html'', ''/manifest.json''].
      \<exists>r. net_local_only (ex_origin @ u) = Inr r \<and> ok r \<and> storable r"
    by (simp add: net_local_only_def ex_origin_def startsWith_def ex_fresh_def ok_def
        storable_def)
  have some_fail: "\<not> (\<forall>u \<in> set [''/'', ''/index.html'', ''/manifest.json''].
      \<exists>r. net_down (ex_origin @ u) = Inr r \<and> ok r \<and> storable r)"
    by (auto simp add: net_down_def)
  have not_accepted: "\<not> (\<forall>u \<in> set [''/'', ''/index.html'', ''/manifest.json''].
      \<exists>r. net_partial (ex_origin @ u) = Inr r \<and> ok r \<and> storable r)"
    by (auto simp add: net_partial_def ex_partial_def storable_def)
  from install_fatal_only_for_local_assets [of net_local_only ex_origin "ex_state []"] all_ok
  have installed: "fst (on_install ex_origin net_local_only (ex_state [])) = Inr () \<and>
      skipped_waiting (snd (on_install ex_origin net_local_only (ex_state [])))"
    by blast
  from install_fatal_only_for_local_assets [of net_down ex_origin "ex_state []"] some_fail
  have failed: "fst (on_install ex_origin net_down (ex_state [])) = Inl AddAllFailed \<and>
      skipped_waiting (snd (on_install ex_origin net_down (ex_state [])))
        = skipped_waiting (ex_state [])"
    by blast
  from install_fatal_only_for_local_assets [of net_partial ex_origin "ex_state []"] not_accepted
  have rejected: "fst (on_install ex_origin net_partial (ex_state [])) = Inl AddAllFailed \<and>
      skipped_waiting (snd (on_install ex_origin net_partial (ex_state [])))
        = skipped_waiting (ex_state [])"
    by blast
  from installed failed rejected show ?thesis
    by (simp add: ex_state_def)
qed

section \<open>Background synchronization\<close>

text \<open>
  C8, as the specification states it, at a concrete input: one connected client. The run
  retrieves no pending record (the retrieval of the source always resolves with the
  empty list), completes, and posts nothing, where the claim has it broadcast
  \<open>SYNC_COMPLETE\<close> with count 0.
\<close>

theorem sync_nothing_pending_counterexample:
  "getPendingTransactions = Inr [] \<and>
   syncTransactions [''window-1''] = [] \<and>
   syncTransactions [''window-1''] \<noteq> [(''window-1'', SYNC_COMPLETE 0)] \<and>
   on_sync ''background-sync-transactions'' [''window-1''] = []"
  by (simp add: on_sync_def syncTransactions_def syncTransactions_with_def
      getPendingTransactions_def)

text \<open>
  C8, amended. For every synchronization task run: when at least one pending record was
  retrieved and every record, processed in order, is processed without failure, the
  message \<open>{type: 'SYNC_COMPLETE', data: {count}}\<close> with count the number of records
  retrieved is posted to every connected client; when no record was retrieved, when the
  retrieval fails or when the processing of a record fails, nothing is posted. With the
  retrieval as the source has it, which resolves with the empty list, no run posts
  anything.
\<close>

theorem sync_broadcasts_when_records_pending:
  "(ts \<noteq> [] \<and> (\<forall>t \<in> set ts. process t = Inr ())
      \<longrightarrow> syncTransactions_with (Inr ts) process clients
            = map (\<lambda>client. (client, SYNC_COMPLETE (length ts))) clients) \<and>
   syncTransactions_with (Inr []) process clients = [] \<and>
   (process_each process ts = Inl e \<longrightarrow> syncTransactions_with (Inr ts) process clients = []) \<and>
   syncTransactions_with (Inl e) process clients = [] \<and>
   syncTransactions clients = [] \<and>
   on_sync tag clients = []"
proof (intro conjI impI)
  assume "ts \<noteq> [] \<and> (\<forall>t \<in> set ts. process t = Inr ())"
  then have "ts \<noteq> []" and "process_each process ts = Inr ()"
    by (simp_all add: process_each_Inr)
  then show "syncTransactions_with (Inr ts) process clients
      = map (\<lambda>client. (client, SYNC_COMPLETE (length ts))) clients"
    by (simp add: syncTransactions_with_def)
next
  assume "process_each process ts = Inl e"
  then show "syncTransactions_with (Inr ts) process clients = []"
    by (simp add: syncTransactions_with_def)
next
  show "syncTransactions clients = []"
    by (simp add: syncTransactions_def syncTransactions_with_def getPendingTransactions_def)
  then show "on_sync tag clients = []"
    by (simp add: on_sync_def)
qed (simp_all add: syncTransactions_with_def)

theorem sync_broadcasts_when_records_pending_witness:
  "syncTransactions_with (Inr [ex_txn, ex_txn\<lparr>txn_id := ''t2''\<rparr>]) processTransaction
      [''window-1'', ''window-2'']
     = [(''window-1'', SYNC_COMPLETE 2), (''window-2'', SYNC_COMPLETE 2)] \<and>
   syncTransactions_with (Inr [ex_txn]) (\<lambda>t. Inl FetchFailed) [''window-1''] = []"
proof -
  have processed: "[ex_txn, ex_txn\<lparr>txn_id := ''t2''\<rparr>] \<noteq> [] \<and>
      (\<forall>t \<in> set [ex_txn, ex_txn\<lparr>txn_id := ''t2''\<rparr>]. processTransaction t = Inr ())"
    by (simp add: processTransaction_def)
  have rejected: "process_each (\<lambda>t. Inl FetchFailed) [ex_txn] = Inl FetchFailed"
    by simp
  from sync_broadcasts_when_records_pending
    [of "[ex_txn, ex_txn\<lparr>txn_id := ''t2''\<rparr>]" processTransaction
        "[''window-1'', ''window-2'']"] processed
  have a: "syncTransactions_with (Inr [ex_txn, ex_txn\<lparr>txn_id := ''t2''\<rparr>]) processTransaction
      [''window-1'', ''window-2'']
     = map (\<lambda>client. (client, SYNC_COMPLETE (length [ex_txn, ex_txn\<lparr>txn_id := ''t2''\<rparr>])))
         [''window-1'', ''window-2'']"
    by blast
  from sync_broadcasts_when_records_pending
    [of "[ex_txn]" "\<lambda>t. Inl FetchFailed" "[''window-1'']" FetchFailed] rejected
  have b: "syncTransactions_with (Inr [ex_txn]) (\<lambda>t. Inl FetchFailed) [''window-1''] = []"
    by blast
  from a b show ?thesis by simp
qed

section \<open>The cache status message\<close>

text \<open>
  C9. \<open>GET_CACHE_STATUS\<close> with a reply port posts one \<open>CACHE_STATUS\<close> message on
  that port and changes nothing. Its data has \<open>caches\<close> the number of extant
  partitions and \<open>size\<close> the number of entries of all partitions together (partition
  names are unique in the storage); on the empty storage it is 0 and 0; after N writes
  of distinct (partition, key) pairs into the empty storage \<open>size\<close> is N; and when the
  storage access fails the data is \<open>{error: message}\<close>.
\<close>

theorem cache_status_counts_partitions_and_entries:
  "(msg_type ev = ''GET_CACHE_STATUS'' \<and> 0 < msg_ports ev \<and> distinct (caches_keys (caches s))
      \<longrightarrow> on_message None now ev s
            = ([(0, CACHE_STATUS
                     (Status (length (caches s)) (total_entries_spec (caches s)) now))], s)) \<and>
   getCacheStatus None now [] = Status 0 0 now \<and>
   (distinct (map (\<lambda>(n, k, r). (n, k)) ws)
      \<longrightarrow> status_size (getCacheStatus None now (write_entries ws [])) = length ws) \<and>
   (msg_type ev = ''GET_CACHE_STATUS'' \<and> 0 < msg_ports ev
      \<longrightarrow> on_message (Some message) now ev s
            = ([(0, CACHE_STATUS (StatusError message))], s))"
proof (intro conjI impI)
  assume h: "msg_type ev = ''GET_CACHE_STATUS'' \<and> 0 < msg_ports ev \<and>
    distinct (caches_keys (caches s))"
  then have "getCacheStatus None now (caches s)
      = Status (length (caches s)) (total_entries_spec (caches s)) now"
    by (simp add: getCacheStatus_def count_entries_total) (simp add: caches_keys_def)
  with h show "on_message None now ev s
      = ([(0, CACHE_STATUS (Status (length (caches s)) (total_entries_spec (caches s)) now))], s)"
    by (simp add: on_message_def)
next
  show "getCacheStatus None now [] = Status 0 0 now"
    by (simp add: getCacheStatus_def caches_keys_def)
next
  assume d: "distinct (map (\<lambda>(n, k, r). (n, k)) ws)"
  have names: "distinct (caches_keys (write_entries ws []))"
    by (rule write_entries_distinct) (simp add: caches_keys_def)
  have "total_entries_spec (write_entries ws []) = total_entries_spec [] + length ws"
    using d by (rule write_entries_total) (simp add: cache_match_def partition_of_def)
  then have "total_entries_spec (write_entries ws []) = length ws"
    by (simp add: total_entries_spec_def)
  with names show "status_size (getCacheStatus None now (write_entries ws [])) = length ws"
    by (simp add: getCacheStatus_def count_entries_total)
next
  assume "msg_type ev = ''GET_CACHE_STATUS'' \<and> 0 < msg_ports ev"
  then show "on_message (Some message) now ev s = ([(0, CACHE_STATUS (StatusError message))], s)"
    by (simp add: on_message_def getCacheStatus_def)
qed

theorem cache_status_counts_partitions_and_entries_witness:
  "on_message None ''2024-01-01T00:00:00.000Z'' ex_status_event
      (ex_state [(STATIC_CACHE_NAME, [(''/'', ex_fresh), (''/index.html'', ex_fresh)]),
                 (DYNAMIC_CACHE_NAME, [(''exchange-rates'', ex_stale)])])
     = ([(0, CACHE_STATUS (Status 2 3 ''2024-01-01T00:00:00.000Z''))],
        ex_state [(STATIC_CACHE_NAME, [(''/'', ex_fresh), (''/index.html'', ex_fresh)]),
                  (DYNAMIC_CACHE_NAME, [(''exchange-rates'', ex_stale)])]) \<and>
   status_size (getCacheStatus None ''2024-01-01T00:00:00.000Z''
      (write_entries [(STATIC_CACHE_NAME, ''/'', ex_fresh),
                      (DYNAMIC_CACHE_NAME, ''/'', ex_fresh),
                      (DYNAMIC_CACHE_NAME, ''exchange-rates'', ex_stale)] [])) = 3 \<and>
   on_message (Some ''storage unavailable'') ''2024-01-01T00:00:00.000Z'' ex_status_event
      (ex_state [])
     = ([(0, CACHE_STATUS (StatusError ''storage unavailable''))], ex_state [])"
proof -
  let ?s = "ex_state [(STATIC_CACHE_NAME, [(''/'', ex_fresh), (''/index.html'', ex_fresh)]),
                 (DYNAMIC_CACHE_NAME, [(''exchange-rates'', ex_stale)])]"
  let ?ws = "[(STATIC_CACHE_NAME, ''/'', ex_fresh),
              (DYNAMIC_CACHE_NAME, ''/'', ex_fresh),
              (DYNAMIC_CACHE_NAME, ''exchange-rates'', ex_stale)]"
  let ?now = "''2024-01-01T00:00:00.000Z''"
  have asked: "msg_type ex_status_event = ''GET_CACHE_STATUS'' \<and> 0 < msg_ports ex_status_event"
    by (simp add: ex_status_event_def)
  have names: "distinct (caches_keys (caches ?s))"
    by (simp add: caches_keys_def ex_state_def STATIC_CACHE_NAME_def DYNAMIC_CACHE_NAME_def)
  have writes: "distinct (map (\<lambda>(n, k, r). (n, k)) ?ws)"
    by (simp add: STATIC_CACHE_NAME_def DYNAMIC_CACHE_NAME_def)
  note fact = cache_status_counts_partitions_and_entries
    [where ev = ex_status_event and now = ?now and message = "''storage unavailable''"]
  from fact [where s = ?s] asked names
  have a: "on_message None ?now ex_status_event ?s
      = ([(0, CACHE_STATUS (Status (length (caches ?s)) (total_entries_spec (caches ?s)) ?now))], ?s)"
    by blast
  from fact [where ws = ?ws] writes
  have b: "status_size (getCacheStatus None ?now (write_entries ?ws [])) = length ?ws"
    by blast
  from fact [where s = "ex_state []"] asked
  have c: "on_message (Some ''storage unavailable'') ?now ex_status_event (ex_state [])
      = ([(0, CACHE_STATUS (StatusError ''storage unavailable''))], ex_state [])"
    by blast
  have counts: "length (caches ?s) = 2" "total_entries_spec (caches ?s) = 3"
    by (simp_all add: ex_state_def total_entries_spec_def)
  from a b c counts show ?thesis
    by simp
qed

end
